theory Spec2Isabelle
  imports Complex_Main
begin

section \<open>Python values as the source handles them\<close>

text \<open>
  Both programs work on the parsed JSON the Notion client returns: nested dicts, lists,
  strings, numbers, booleans and None, inspected dynamically. The model keeps that
  shape. A dict is an association list in insertion order (each key once, as in a
  Python dict); a string is a list of characters, each character standing for the code
  point of the same number (0..255); a float is the rational it denotes (JSON has no
  infinities or NaN). Every exception the source can raise on such a value is a value
  of \<open>py_error\<close>, and a computation that may raise returns \<open>py_error + 'a\<close>.
\<close>

datatype py_error =
  KeyError | IndexError | TypeError | AttributeError | ValueError | APIResponseError

datatype json =
  JNull
| JBool bool
| JInt int
| JFloat rat
| JStr string
| JList "json list"
| JObj "(string \<times> json) list"

definition and_then :: "py_error + 'a \<Rightarrow> ('a \<Rightarrow> py_error + 'b) \<Rightarrow> py_error + 'b" where
  "and_then r f = (case r of Inl e \<Rightarrow> Inl e | Inr x \<Rightarrow> f x)"

fun map_result :: "('a \<Rightarrow> py_error + 'b) \<Rightarrow> 'a list \<Rightarrow> py_error + 'b list" where
  "map_result f [] = Inr []"
| "map_result f (x # xs) =
     and_then (f x) (\<lambda>y. and_then (map_result f xs) (\<lambda>ys. Inr (y # ys)))"

text \<open>\<open>seq[i]\<close> on a list or a string: a negative index counts from the end.\<close>

definition seq_index :: "'a list \<Rightarrow> int \<Rightarrow> py_error + 'a" where
  "seq_index xs i =
     (let j = (if i < 0 then i + int (length xs) else i)
      in if 0 \<le> j \<and> j < int (length xs) then Inr (xs ! nat j) else Inl IndexError)"

text \<open>
  \<open>obj[key]\<close>. A dict from JSON has string keys only, so any other hashable key is
  missing (KeyError) and a list or dict key is unhashable (TypeError). Lists and
  strings take integer indices (a bool is an integer); everything else is not
  subscriptable.
\<close>

fun getitem :: "json \<Rightarrow> json \<Rightarrow> py_error + json" where
  "getitem (JObj kvs) (JStr k) = (case map_of kvs k of Some v \<Rightarrow> Inr v | None \<Rightarrow> Inl KeyError)"
| "getitem (JObj kvs) (JList ks) = Inl TypeError"
| "getitem (JObj kvs) (JObj ks) = Inl TypeError"
| "getitem (JObj kvs) key = Inl KeyError"
| "getitem (JList xs) (JInt i) = seq_index xs i"
| "getitem (JList xs) (JBool b) = seq_index xs (if b then 1 else 0)"
| "getitem (JStr s) (JInt i) = and_then (seq_index s i) (\<lambda>c. Inr (JStr [c]))"
| "getitem (JStr s) (JBool b) = and_then (seq_index s (if b then 1 else 0)) (\<lambda>c. Inr (JStr [c]))"
| "getitem obj key = Inl TypeError"

text \<open>\<open>obj.get(k, default)\<close>: only a dict has the method.\<close>

fun py_get :: "json \<Rightarrow> string \<Rightarrow> json \<Rightarrow> py_error + json" where
  "py_get (JObj kvs) k d = Inr (case map_of kvs k of Some v \<Rightarrow> v | None \<Rightarrow> d)"
| "py_get obj k d = Inl AttributeError"

text \<open>\<open>obj.items()\<close>.\<close>

fun py_items :: "json \<Rightarrow> py_error + (string \<times> json) list" where
  "py_items (JObj kvs) = Inr kvs"
| "py_items obj = Inl AttributeError"

text \<open>The truth value of an object in \<open>if\<close>, \<open>and\<close>, \<open>not\<close>.\<close>

fun truthy :: "json \<Rightarrow> bool" where
  "truthy JNull = False"
| "truthy (JBool b) = b"
| "truthy (JInt i) = (i \<noteq> 0)"
| "truthy (JFloat q) = (q \<noteq> 0)"
| "truthy (JStr s) = (s \<noteq> [])"
| "truthy (JList xs) = (xs \<noteq> [])"
| "truthy (JObj kvs) = (kvs \<noteq> [])"

text \<open>What \<open>for x in obj\<close> yields: the elements of a list, the characters of a string
  (as strings of length one), the keys of a dict.\<close>

fun py_iter :: "json \<Rightarrow> py_error + json list" where
  "py_iter (JList xs) = Inr xs"
| "py_iter (JStr s) = Inr (map (\<lambda>c. JStr [c]) s)"
| "py_iter (JObj kvs) = Inr (map (\<lambda>kv. JStr (fst kv)) kvs)"
| "py_iter obj = Inl TypeError"

text \<open>\<open>"".join(xs)\<close>: every element must be a string.\<close>

fun str_of :: "json \<Rightarrow> py_error + string" where
  "str_of (JStr s) = Inr s"
| "str_of obj = Inl TypeError"

definition py_join :: "json list \<Rightarrow> py_error + json" where
  "py_join xs = and_then (map_result str_of xs) (\<lambda>ss. Inr (JStr (concat ss)))"

text \<open>\<open>d[k] = v\<close> on a dict: an existing key keeps its place, a new key goes last.\<close>

fun dict_set :: "('k \<times> 'v) list \<Rightarrow> 'k \<Rightarrow> 'v \<Rightarrow> ('k \<times> 'v) list" where
  "dict_set [] k v = [(k, v)]"
| "dict_set ((k', v') # kvs) k v =
     (if k' = k then (k, v) # kvs else (k', v') # dict_set kvs k v)"

section \<open>The HTTP facade (main.py)\<close>

subsection \<open>Formatting a page's properties (\<open>test_database_access\<close>)\<close>

text \<open>
  \<open>"".join(text["plain_text"] for text in prop_data[kind])\<close>: the generator is run to
  its end before the strings are joined.
\<close>

definition joined_plain_text :: "json \<Rightarrow> string \<Rightarrow> py_error + json" where
  "joined_plain_text prop_data kind =
     and_then (getitem prop_data (JStr kind)) (\<lambda>payload.
     and_then (py_iter payload) (\<lambda>fragments.
     and_then (map_result (\<lambda>text. getitem text (JStr ''plain_text'')) fragments) py_join))"

text \<open>The body of the loop over \<open>page["properties"].items()\<close>: the value stored
  under the property's name.\<close>

definition format_property :: "json \<Rightarrow> py_error + json" where
  "format_property prop_data =
     and_then (getitem prop_data (JStr ''type'')) (\<lambda>kind.
       if kind = JStr ''title'' then joined_plain_text prop_data ''title''
       else if kind = JStr ''rich_text'' then joined_plain_text prop_data ''rich_text''
       else getitem prop_data kind)"

fun format_loop ::
  "(string \<times> json) list \<Rightarrow> (string \<times> json) list \<Rightarrow> py_error + (string \<times> json) list" where
  "format_loop formatted [] = Inr formatted"
| "format_loop formatted ((prop_name, prop_data) # rest) =
     and_then (format_property prop_data) (\<lambda>v.
       format_loop (dict_set formatted prop_name v) rest)"

definition format_properties :: "json \<Rightarrow> py_error + json" where
  "format_properties properties =
     and_then (py_items properties) (\<lambda>entries.
     and_then (format_loop [] entries) (\<lambda>formatted. Inr (JObj formatted)))"

definition format_page :: "json \<Rightarrow> py_error + json" where
  "format_page page =
     and_then (getitem page (JStr ''id'')) (\<lambda>page_id.
     and_then (getitem page (JStr ''url'')) (\<lambda>url.
     and_then (getitem page (JStr ''created_time'')) (\<lambda>created.
     and_then (getitem page (JStr ''last_edited_time'')) (\<lambda>edited.
     and_then (getitem page (JStr ''properties'')) (\<lambda>properties.
     and_then (format_properties properties) (\<lambda>formatted.
       Inr (JObj [(''id'', page_id), (''url'', url), (''created_time'', created),
                  (''last_edited_time'', edited), (''properties'', formatted)])))))))"

subsection \<open>One page of results (\<open>test_database_access\<close>)\<close>

text \<open>
  The remote collaborator's paged answer \<open>{results, has_more, next_cursor}\<close> and the
  parameters of a query. The formatted response of \<open>test_database_access\<close> has the
  same three fields (its constant \<open>object\<close> and \<open>type\<close> entries are left out).
\<close>

record response =
  results :: "json list"
  has_more :: bool
  next_cursor :: "string option"

record query =
  q_filter :: "json option"
  q_start_cursor :: "string option"
  q_page_size :: int

record pagination_params =
  start_cursor :: "string option"
  page_size :: "int option"

datatype http_exception = HTTPException nat string

definition test_database_access ::
  "(query \<Rightarrow> py_error + response) \<Rightarrow> pagination_params \<Rightarrow> http_exception + response" where
  "test_database_access notion_query pagination =
     (case
        and_then (case page_size pagination of
                    None \<Rightarrow> Inl TypeError
                  | Some n \<Rightarrow> Inr (min n 100)) (\<lambda>size.
        and_then (notion_query \<lparr>q_filter = None,
                                  q_start_cursor = start_cursor pagination,
                                  q_page_size = size\<rparr>) (\<lambda>answer.
        and_then (map_result format_page (results answer)) (\<lambda>formatted.
          Inr \<lparr>results = formatted, has_more = has_more answer,
                next_cursor = next_cursor answer\<rparr>)))
      of Inl e \<Rightarrow> Inl (HTTPException 500 ''Failed to access Notion database'')
       | Inr formatted_response \<Rightarrow> Inr formatted_response)"

subsection \<open>The pagination test (\<open>test_pagination\<close>)\<close>

text \<open>
  The remote is a parameter: \<open>remote n\<close> is how it answers the \<open>n\<close>-th query of a run
  (counting from 0), so any sequence of answers, and any dependence on the cursor it
  is sent, is covered. The loop sends one query per round, so its round counter
  \<open>page_count\<close> is also the number of the next query.
\<close>

record pagination_report =
  total_pages_fetched :: nat
  pagination_rounds :: nat
  pages :: "json list"

function pagination_loop ::
  "(nat \<Rightarrow> query \<Rightarrow> py_error + response) \<Rightarrow> json list \<Rightarrow> bool \<Rightarrow> string option \<Rightarrow> nat
     \<Rightarrow> http_exception + (json list \<times> nat)" where
  "pagination_loop remote all_pages has_more' cursor page_count =
     (if has_more' then
        (case test_database_access (remote page_count)
                \<lparr>start_cursor = cursor, page_size = Some 10\<rparr> of
           Inl e \<Rightarrow> Inl e
         | Inr formatted \<Rightarrow>
             (if page_count + 1 \<ge> 10
              then Inr (all_pages @ results formatted, page_count + 1)
              else pagination_loop remote (all_pages @ results formatted)
                     (has_more formatted) (next_cursor formatted) (page_count + 1)))
      else Inr (all_pages, page_count))"
  by pat_completeness auto
termination
  by (relation "measure (\<lambda>(remote, all_pages, has_more', cursor, page_count). 10 - page_count)")
     auto

definition test_pagination ::
  "(nat \<Rightarrow> query \<Rightarrow> py_error + response) \<Rightarrow> http_exception + pagination_report" where
  "test_pagination remote =
     (case pagination_loop remote [] True None 0 of
        Inl e \<Rightarrow> Inl (HTTPException 500 ''Failed to test pagination'')
      | Inr (all_pages, page_count) \<Rightarrow>
          Inr \<lparr>total_pages_fetched = length all_pages, pagination_rounds = page_count,
                pages = all_pages\<rparr>)"

section \<open>The batch script (qr_generator.py)\<close>

text \<open>
  \<open>generate_all_qrs\<close> runs three loops in turn: it fetches every record, groups the
  records by item name, and renders one artifact per group. (Before them it creates
  the output directory and prints the database schema; between them it prints
  counts.) Each loop is a function of its own here.
\<close>

subsection \<open>Fetching every record (\<open>generate_all_qrs\<close>, the \<open>while True\<close> loop)\<close>

definition semi_consumable_filter :: json where
  "semi_consumable_filter =
     JObj [(''property'', JStr ''Category''),
           (''multi_select'', JObj [(''contains'', JStr ''Semi-consumable'')])]"

text \<open>\<open>query_params\<close>: the cursor is sent only when it is truthy (neither \<open>None\<close> nor
  the empty string).\<close>

definition query_params :: "string option \<Rightarrow> query" where
  "query_params cursor =
     \<lparr>q_filter = Some semi_consumable_filter,
      q_start_cursor = (if cursor \<noteq> None \<and> cursor \<noteq> Some [] then cursor else None),
      q_page_size = 100\<rparr>"

text \<open>
  The loop has no bound of its own, so it is a partial function: \<open>None\<close> is a run that
  never leaves the loop, \<open>Some (Inl e)\<close> a run ended by the remote's exception,
  \<open>Some (Inr all_results)\<close> a run that reached \<open>break\<close>. \<open>n\<close> numbers the queries of
  the run, as above.
\<close>

partial_function (option) query_loop ::
  "(nat \<Rightarrow> query \<Rightarrow> py_error + response) \<Rightarrow> nat \<Rightarrow> json list \<Rightarrow> string option
     \<Rightarrow> (py_error + json list) option" where
  "query_loop remote n all_results cursor =
     (case remote n (query_params cursor) of
        Inl e \<Rightarrow> Some (Inl e)
      | Inr answer \<Rightarrow>
          if \<not> has_more answer then Some (Inr (all_results @ results answer))
          else query_loop remote (Suc n) (all_results @ results answer) (next_cursor answer))"

definition fetch_all_results ::
  "(nat \<Rightarrow> query \<Rightarrow> py_error + response) \<Rightarrow> (py_error + json list) option" where
  "fetch_all_results remote = query_loop remote 0 [] None"

subsection \<open>Grouping by item name (\<open>generate_all_qrs\<close>, the first \<open>for\<close> loop)\<close>

text \<open>\<open>properties['Item']['title'][0]['text']['content']\<close>, as both
  \<open>generate_all_qrs\<close> and \<open>generate_item_qr\<close> read it.\<close>

definition title_content :: "json \<Rightarrow> py_error + json" where
  "title_content properties =
     and_then (getitem properties (JStr ''Item'')) (\<lambda>item_prop.
     and_then (getitem item_prop (JStr ''title'')) (\<lambda>title.
     and_then (getitem title (JInt 0)) (\<lambda>fragment.
     and_then (getitem fragment (JStr ''text'')) (\<lambda>text.
       getitem text (JStr ''content'')))))"

definition extract_item_name :: "json \<Rightarrow> py_error + json" where
  "extract_item_name item = and_then (getitem item (JStr ''properties'')) title_content"

text \<open>
  A dict key is found by hash and equality: the numbers \<open>1\<close>, \<open>1.0\<close> and \<open>True\<close> are
  one key, a string is a key of its own, a list or a dict cannot be hashed.
\<close>

datatype dict_key = NoneKey | NumKey rat | StrKey string

fun hash_key :: "json \<Rightarrow> py_error + dict_key" where
  "hash_key JNull = Inr NoneKey"
| "hash_key (JBool b) = Inr (NumKey (if b then 1 else 0))"
| "hash_key (JInt i) = Inr (NumKey (of_int i))"
| "hash_key (JFloat q) = Inr (NumKey q)"
| "hash_key (JStr s) = Inr (StrKey s)"
| "hash_key (JList xs) = Inl TypeError"
| "hash_key (JObj kvs) = Inl TypeError"

definition item_key :: "json \<Rightarrow> py_error + dict_key" where
  "item_key item = and_then (extract_item_name item) hash_key"

text \<open>
  \<open>int(x)\<close>. On a string: surrounding whitespace is dropped, one sign is allowed, then
  decimal digits, single underscores allowed between two digits; more than 4300
  digits are refused (the default limit of CPython 3.11 and later).
\<close>

definition is_int_space :: "char \<Rightarrow> bool" where
  "is_int_space c = (of_char c \<in> {9, 10, 11, 12, 13, 32, 133, 160 :: nat})"

definition is_digit :: "char \<Rightarrow> bool" where
  "is_digit c = (48 \<le> (of_char c :: nat) \<and> (of_char c :: nat) \<le> 57)"

definition strip_where :: "(char \<Rightarrow> bool) \<Rightarrow> string \<Rightarrow> string" where
  "strip_where p s = rev (dropWhile p (rev (dropWhile p s)))"

fun digits_with_underscores :: "string \<Rightarrow> bool" where
  "digits_with_underscores [] = False"
| "digits_with_underscores [c] = is_digit c"
| "digits_with_underscores (c # d # cs) =
     (is_digit c \<and>
      (if d = CHR ''_'' then digits_with_underscores cs else digits_with_underscores (d # cs)))"

definition int_of_str :: "string \<Rightarrow> py_error + int" where
  "int_of_str s =
     (let t = strip_where is_int_space s;
          negative = (t \<noteq> [] \<and> hd t = CHR ''-'');
          body = (if t \<noteq> [] \<and> (hd t = CHR ''-'' \<or> hd t = CHR ''+'') then tl t else t);
          ds = filter is_digit body
      in if digits_with_underscores body \<and> length ds \<le> 4300
         then Inr ((if negative then - 1 else 1) *
                   foldl (\<lambda>a c. 10 * a + (int (of_char c) - 48)) 0 ds)
         else Inl ValueError)"

fun py_int :: "json \<Rightarrow> py_error + int" where
  "py_int (JStr s) = int_of_str s"
| "py_int (JInt i) = Inr i"
| "py_int (JBool b) = Inr (if b then 1 else 0)"
| "py_int (JFloat q) = Inr (if q < 0 then \<lceil>q\<rceil> else \<lfloor>q\<rfloor>)"
| "py_int obj = Inl TypeError"

text \<open>The body of the inner \<open>try\<close> (lines 157 to 160): the amount it adds to
  \<open>total_quantity\<close>, or the exception it raises.\<close>

definition quantity_try :: "json \<Rightarrow> py_error + int" where
  "quantity_try item =
     and_then (getitem item (JStr ''properties'')) (\<lambda>properties.
     and_then (py_get properties ''Quantity'' (JObj [])) (\<lambda>quantity.
     and_then (py_get quantity ''rich_text'' (JList [])) (\<lambda>quantity_text.
     and_then (if truthy quantity_text
               then and_then (getitem quantity_text (JInt 0)) (\<lambda>fragment.
                    and_then (py_get fragment ''text'' (JObj [])) (\<lambda>text.
                    and_then (py_get text ''content'' JNull) (\<lambda>content.
                      Inr (truthy content))))
               else Inr False) (\<lambda>has_content.
       if has_content
       then and_then (getitem quantity_text (JInt 0)) (\<lambda>fragment.
            and_then (getitem fragment (JStr ''text'')) (\<lambda>text.
            and_then (getitem text (JStr ''content'')) py_int))
       else Inr 0))))"

text \<open>With its handler: \<open>except (ValueError, KeyError, IndexError)\<close> adds 1; any
  other exception leaves the inner \<open>try\<close> and reaches the outer handler.\<close>

definition quantity_increment :: "json \<Rightarrow> py_error + int" where
  "quantity_increment item =
     (case quantity_try item of
        Inl e \<Rightarrow> if e = ValueError \<or> e = KeyError \<or> e = IndexError then Inr 1 else Inl e
      | Inr qty \<Rightarrow> Inr qty)"

record item_group =
  items :: "json list"
  total_quantity :: int

definition update_group ::
  "dict_key \<Rightarrow> (item_group \<Rightarrow> item_group) \<Rightarrow> (dict_key \<times> item_group) list
     \<Rightarrow> (dict_key \<times> item_group) list" where
  "update_group name f items_by_name =
     map (\<lambda>(k, g). if k = name then (k, f g) else (k, g)) items_by_name"

text \<open>
  One turn of the loop. An exception before the group is touched (no name, or a name
  that cannot be a key) skips the record; one raised by the quantity code after the
  record was appended leaves it appended.
\<close>

definition group_item ::
  "(dict_key \<times> item_group) list \<Rightarrow> json \<Rightarrow> (dict_key \<times> item_group) list" where
  "group_item items_by_name item =
     (case item_key item of
        Inl e \<Rightarrow> items_by_name
      | Inr name \<Rightarrow>
          (let created =
                 (if name \<notin> set (map fst items_by_name)
                  then dict_set items_by_name name \<lparr>items = [], total_quantity = 0\<rparr>
                  else items_by_name);
               appended = update_group name (\<lambda>g. g\<lparr>items := items g @ [item]\<rparr>) created
           in case quantity_increment item of
                Inl e \<Rightarrow> appended
              | Inr qty \<Rightarrow>
                  update_group name
                    (\<lambda>g. g\<lparr>total_quantity := total_quantity g + qty\<rparr>) appended))"

definition group_by_name :: "json list \<Rightarrow> (dict_key \<times> item_group) list" where
  "group_by_name all_results = foldl group_item [] all_results"

definition group_members :: "(dict_key \<times> item_group) list \<Rightarrow> dict_key \<Rightarrow> json list" where
  "group_members items_by_name name =
     (case map_of items_by_name name of None \<Rightarrow> [] | Some g \<Rightarrow> items g)"

definition group_total :: "(dict_key \<times> item_group) list \<Rightarrow> dict_key \<Rightarrow> int" where
  "group_total items_by_name name =
     (case map_of items_by_name name of None \<Rightarrow> 0 | Some g \<Rightarrow> total_quantity g)"

subsection \<open>Rendering one item (\<open>generate_item_qr\<close>)\<close>

text \<open>\<open>k in obj\<close> for a string \<open>k\<close>: a key of a dict, an element of a list, a substring
  of a string.\<close>

primrec contains_substring :: "string \<Rightarrow> string \<Rightarrow> bool" where
  "contains_substring sub [] = (sub = [])"
| "contains_substring sub (c # cs) =
     (take (length sub) (c # cs) = sub \<or> contains_substring sub cs)"

fun py_contains :: "json \<Rightarrow> string \<Rightarrow> py_error + bool" where
  "py_contains (JObj kvs) k = Inr (k \<in> set (map fst kvs))"
| "py_contains (JList xs) k = Inr (JStr k \<in> set xs)"
| "py_contains (JStr s) k = Inr (contains_substring k s)"
| "py_contains obj k = Inl TypeError"

text \<open>\<open>str.isalnum\<close> and \<open>str.isspace\<close> on the code points 0..255.\<close>

definition isalnum :: "char \<Rightarrow> bool" where
  "isalnum c =
     (let n = (of_char c :: nat)
      in (48 \<le> n \<and> n \<le> 57) \<or> (65 \<le> n \<and> n \<le> 90) \<or> (97 \<le> n \<and> n \<le> 122) \<or>
         n \<in> {170, 178, 179, 181, 185, 186, 188, 189, 190} \<or>
         (192 \<le> n \<and> n \<le> 214) \<or> (216 \<le> n \<and> n \<le> 246) \<or> (248 \<le> n \<and> n \<le> 255))"

definition isspace :: "char \<Rightarrow> bool" where
  "isspace c = (of_char c \<in> {9, 10, 11, 12, 13, 28, 29, 30, 31, 32, 133, 160 :: nat})"

definition rstrip :: "string \<Rightarrow> string" where
  "rstrip s = rev (dropWhile isspace (rev s))"

text \<open>\<open>c.isalnum() or c in (' ','-','_')\<close> for an element \<open>c\<close> of the iteration.\<close>

fun keeps :: "json \<Rightarrow> py_error + bool" where
  "keeps (JStr s) =
     Inr ((s \<noteq> [] \<and> list_all isalnum s) \<or> s = '' '' \<or> s = ''-'' \<or> s = ''_'')"
| "keeps obj = Inl AttributeError"

fun filter_result :: "('a \<Rightarrow> py_error + bool) \<Rightarrow> 'a list \<Rightarrow> py_error + 'a list" where
  "filter_result p [] = Inr []"
| "filter_result p (x # xs) =
     and_then (p x) (\<lambda>keep. and_then (filter_result p xs) (\<lambda>ys.
       Inr (if keep then x # ys else ys)))"

definition safe_filename :: "json \<Rightarrow> py_error + string" where
  "safe_filename item_name =
     and_then (py_iter item_name) (\<lambda>cs.
     and_then (filter_result keeps cs) (\<lambda>kept.
     and_then (py_join kept) (\<lambda>joined.
     and_then (str_of joined) (\<lambda>s. Inr (rstrip s)))))"

fun remove_hyphens :: "json \<Rightarrow> py_error + string" where
  "remove_hyphens (JStr s) = Inr (filter (\<lambda>c. c \<noteq> CHR ''-'') s)"
| "remove_hyphens obj = Inl AttributeError"

text \<open>
  \<open>datetime.now().strftime("%Y%m%d")\<close>: the clock is a parameter. A \<open>datetime\<close> has a
  year from 1 to 9999, a month from 1 to 12 and a day from 1 to 31; each is printed
  in decimal, zero-padded to the width of its field.
\<close>

record date =
  year :: nat
  month :: nat
  day :: nat

definition digit_char :: "nat \<Rightarrow> char" where
  "digit_char n = ''0123456789'' ! (n mod 10)"

definition strftime_Ymd :: "date \<Rightarrow> string" where
  "strftime_Ymd d =
     [digit_char (year d div 1000), digit_char (year d div 100), digit_char (year d div 10),
      digit_char (year d),
      digit_char (month d div 10), digit_char (month d),
      digit_char (day d div 10), digit_char (day d)]"

text \<open>What \<open>generate_item_qr\<close> produces: the URL the QR code encodes and the name of
  the file the image is saved under. (Drawing and saving the image are the
  \<open>qrcode\<close> library's work and lie outside the model.)\<close>

record qr_artifact =
  notion_url :: string
  filename :: string

definition generate_item_qr :: "date \<Rightarrow> json \<Rightarrow> json \<Rightarrow> py_error + qr_artifact" where
  "generate_item_qr today page_id properties =
     and_then (py_contains properties ''Item'') (\<lambda>present.
     and_then (if \<not> present then Inr True
               else and_then (getitem properties (JStr ''Item'')) (\<lambda>item_prop.
                    and_then (getitem item_prop (JStr ''title'')) (\<lambda>title.
                      Inr (\<not> truthy title)))) (\<lambda>no_title.
       if no_title then Inl ValueError
       else
         and_then (title_content properties) (\<lambda>item_name.
         and_then (remove_hyphens page_id) (\<lambda>bare_id.
         and_then (safe_filename item_name) (\<lambda>safe.
           Inr \<lparr>notion_url = ''https://www.notion.so/'' @ bare_id,
                 filename = safe @ ''_'' @ strftime_Ymd today @ ''.png''\<rparr>)))))"

subsection \<open>Rendering one artifact per group (\<open>generate_all_qrs\<close>, the second \<open>for\<close> loop)\<close>

definition generate_group_qr :: "date \<Rightarrow> item_group \<Rightarrow> py_error + qr_artifact" where
  "generate_group_qr today data =
     and_then (seq_index (items data) 0) (\<lambda>first_item.
     and_then (getitem first_item (JStr ''id'')) (\<lambda>page_id.
     and_then (getitem first_item (JStr ''properties'')) (\<lambda>properties.
       generate_item_qr today page_id properties)))"

definition generate_unique_qrs ::
  "date \<Rightarrow> (dict_key \<times> item_group) list \<Rightarrow> (dict_key \<times> (py_error + qr_artifact)) list" where
  "generate_unique_qrs today items_by_name =
     map (\<lambda>(name, data). (name, generate_group_qr today data)) items_by_name"

section \<open>The data model of the specification\<close>

text \<open>
  A TypedProperty of the specification: a title or a rich text carries the
  \<open>plain_text\<close> of its fragments in order, any other kind carries its name and its
  payload. \<open>typed_property_of\<close> reads a property of the remote's JSON as one: a dict
  whose \<open>type\<close> entry names the kind and whose entry under that name is the payload.
\<close>

datatype typed_property = Title "string list" | Rich_text "string list" | Other string json

fun plain_text_of :: "json \<Rightarrow> string option" where
  "plain_text_of (JObj kvs) =
     (case map_of kvs ''plain_text'' of Some (JStr s) \<Rightarrow> Some s | _ \<Rightarrow> None)"
| "plain_text_of obj = None"

fun typed_property_of :: "json \<Rightarrow> typed_property option" where
  "typed_property_of (JObj kvs) =
     (case map_of kvs ''type'' of
        Some (JStr kind) \<Rightarrow>
          (if kind = ''title'' then
             (case map_of kvs ''title'' of
                Some (JList fragments) \<Rightarrow> map_option Title (those (map plain_text_of fragments))
              | _ \<Rightarrow> None)
           else if kind = ''rich_text'' then
             (case map_of kvs ''rich_text'' of
                Some (JList fragments) \<Rightarrow>
                  map_option Rich_text (those (map plain_text_of fragments))
              | _ \<Rightarrow> None)
           else map_option (Other kind) (map_of kvs kind))
      | _ \<Rightarrow> None)"
| "typed_property_of obj = None"

text \<open>The extraction rules of the specification's table (4.2).\<close>

fun extraction_rule :: "typed_property \<Rightarrow> json" where
  "extraction_rule (Title texts) = JStr (concat texts)"
| "extraction_rule (Rich_text texts) = JStr (concat texts)"
| "extraction_rule (Other kind payload) = payload"

section \<open>Notions the statements below use\<close>

text \<open>The record carries an \<open>Item\<close> property with a \<open>title\<close> payload of at least
  one fragment. (The source never reads the property's \<open>type\<close> tag: it takes the
  payload under the name \<open>title\<close>, which the remote gives exactly to a property of
  kind title.)\<close>

definition has_item_title :: "json \<Rightarrow> bool" where
  "has_item_title item =
     (case getitem item (JStr ''properties'') of
        Inr properties \<Rightarrow>
          (case getitem properties (JStr ''Item'') of
             Inr item_prop \<Rightarrow>
               (case getitem item_prop (JStr ''title'') of
                  Inr (JList (fragment # fragments)) \<Rightarrow> True
                | _ \<Rightarrow> False)
           | _ \<Rightarrow> False)
      | _ \<Rightarrow> False)"

text \<open>The values a flattened record holds for a title or a rich text, and for a
  number, a checkbox or an empty property: strings and other primitives.\<close>

definition primitive :: "json \<Rightarrow> bool" where
  "primitive v = (case v of JList xs \<Rightarrow> False | JObj kvs \<Rightarrow> False | _ \<Rightarrow> True)"

text \<open>What one record adds to its group's \<open>total_quantity\<close>: nothing when the
  quantity code left by an exception its handler does not catch.\<close>

definition quantity_added :: "json \<Rightarrow> int" where
  "quantity_added item = (case quantity_increment item of Inl e \<Rightarrow> 0 | Inr qty \<Rightarrow> qty)"

text \<open>The character class \<open>[A-Za-z0-9 _-]\<close>, by code point: \<open>A\<close> to \<open>Z\<close> are 65 to
  90, \<open>a\<close> to \<open>z\<close> 97 to 122, \<open>0\<close> to \<open>9\<close> 48 to 57; space is 32, \<open>_\<close> is 95, \<open>-\<close>
  is 45.\<close>

definition plain_name_char :: "char \<Rightarrow> bool" where
  "plain_name_char c =
     (let n = (of_char c :: nat)
      in (65 \<le> n \<and> n \<le> 90) \<or> (97 \<le> n \<and> n \<le> 122) \<or> (48 \<le> n \<and> n \<le> 57) \<or>
         n = 32 \<or> n = 95 \<or> n = 45)"

text \<open>The characters \<open>generate_item_qr\<close> keeps of a name.\<close>

definition kept_char :: "char \<Rightarrow> bool" where
  "kept_char c = (isalnum c \<or> c = CHR '' '' \<or> c = CHR ''-'' \<or> c = CHR ''_'')"

text \<open>The cursor a run sends with its \<open>n\<close>-th query when \<open>answers\<close> are the answers it
  got: none at first, then the \<open>next_cursor\<close> of the answer before.\<close>

definition cursor_sent :: "(nat \<Rightarrow> response) \<Rightarrow> nat \<Rightarrow> string option" where
  "cursor_sent answers n = (if n = 0 then None else next_cursor (answers (n - 1)))"

section \<open>Example data\<close>

definition text_fragment :: "string \<Rightarrow> json" where
  "text_fragment s =
     JObj [(''type'', JStr ''text''), (''text'', JObj [(''content'', JStr s)]),
           (''plain_text'', JStr s)]"

definition title_property :: "string list \<Rightarrow> json" where
  "title_property ss =
     JObj [(''id'', JStr ''title''), (''type'', JStr ''title''),
           (''title'', JList (map text_fragment ss))]"

definition rich_text_property :: "string list \<Rightarrow> json" where
  "rich_text_property ss =
     JObj [(''id'', JStr ''qty''), (''type'', JStr ''rich_text''),
           (''rich_text'', JList (map text_fragment ss))]"

definition number_property :: "int \<Rightarrow> json" where
  "number_property n = JObj [(''id'', JStr ''num''), (''type'', JStr ''number''), (''number'', JInt n)]"

definition page_record :: "string \<Rightarrow> (string \<times> json) list \<Rightarrow> json" where
  "page_record page_id properties =
     JObj [(''id'', JStr page_id), (''url'', JStr ''https://www.notion.so/page''),
           (''created_time'', JStr ''2024-01-01T00:00:00.000Z''),
           (''last_edited_time'', JStr ''2024-01-02T00:00:00.000Z''),
           (''properties'', JObj properties)]"

definition example_properties :: "(string \<times> json) list" where
  "example_properties =
     [(''Item'', title_property [''Bolt '', ''M8'']),
      (''Notes'', rich_text_property []),
      (''Count'', number_property 3)]"

text \<open>A formula property whose result is the number 5.\<close>

definition formula_properties :: "(string \<times> json) list" where
  "formula_properties =
     [(''Total'', JObj [(''id'', JStr ''fml''), (''type'', JStr ''formula''),
                        (''formula'', JObj [(''type'', JStr ''number''), (''number'', JInt 5)])])]"

definition example_flattened :: "(string \<times> json) list" where
  "example_flattened = [(''Item'', JStr ''Bolt M8''), (''Notes'', JStr []), (''Count'', JInt 3)]"

definition widget_a :: json where
  "widget_a = page_record ''11111111-aaaa'' [(''Item'', title_property [''Widget''])]"

definition widget_b :: json where
  "widget_b = page_record ''22222222-bbbb'' [(''Item'', title_property [''Widget''])]"

definition widget_lower :: json where
  "widget_lower = page_record ''33333333-cccc'' [(''Item'', title_property [''widget''])]"

definition widget_spaced :: json where
  "widget_spaced = page_record ''44444444-dddd'' [(''Item'', title_property [''Widget ''])]"

definition untitled :: json where
  "untitled = page_record ''55555555-eeee'' [(''Count'', number_property 3)]"

definition bolt_plain :: json where
  "bolt_plain = page_record ''abc-1'' [(''Item'', title_property [''Bolt''])]"

definition bolt_five :: json where
  "bolt_five =
     page_record ''abc-2''
       [(''Item'', title_property [''Bolt'']), (''Quantity'', rich_text_property [''5''])]"

definition bolt_dozen :: json where
  "bolt_dozen =
     page_record ''abc-3''
       [(''Item'', title_property [''Bolt'']), (''Quantity'', rich_text_property [''a dozen''])]"

definition bolt_no_fragment :: json where
  "bolt_no_fragment =
     page_record ''abc-4''
       [(''Item'', title_property [''Bolt'']), (''Quantity'', rich_text_property [])]"

definition bolt_m8 :: json where
  "bolt_m8 = page_record ''abc-5'' [(''Item'', title_property [''Bolt'', '' M8''])]"

text \<open>A name with a letter outside ASCII: \<open>Caf\<close> followed by U+00E9.\<close>

definition cafe_name :: string where
  "cafe_name = ''Caf'' @ [CHR 0xE9]"

definition messy_name :: string where
  "messy_name = ''Bolt: M8! ''"

definition a_day :: date where
  "a_day = \<lparr>year = 2024, month = 3, day = 9\<rparr>"

text \<open>What the flattener makes of \<open>widget_a\<close>.\<close>

definition formatted_widget :: json where
  "formatted_widget =
     JObj [(''id'', JStr ''11111111-aaaa''), (''url'', JStr ''https://www.notion.so/page''),
           (''created_time'', JStr ''2024-01-01T00:00:00.000Z''),
           (''last_edited_time'', JStr ''2024-01-02T00:00:00.000Z''),
           (''properties'', JObj [(''Item'', JStr ''Widget'')])]"

text \<open>Two remotes: one that always reports more, one that reports more for its
  first eleven answers only; each answer carries one record.\<close>

definition widget_answer :: response where
  "widget_answer = \<lparr>results = [widget_a], has_more = True, next_cursor = Some ''cursor''\<rparr>"

definition always_more :: "nat \<Rightarrow> query \<Rightarrow> py_error + response" where
  "always_more n q = Inr widget_answer"

definition numbered_answer :: "nat \<Rightarrow> response" where
  "numbered_answer n =
     \<lparr>results = [JInt (int n)], has_more = (n < 11), next_cursor = Some ''cursor''\<rparr>"

definition twelve_rounds :: "nat \<Rightarrow> query \<Rightarrow> py_error + response" where
  "twelve_rounds n q = Inr (numbered_answer n)"

section \<open>Basic facts\<close>

lemma and_then_Inr [simp]: "and_then (Inr x) f = f x"
  by (simp add: and_then_def)

lemma and_then_Inl [simp]: "and_then (Inl e) f = Inl e"
  by (simp add: and_then_def)

lemma and_then_eq_Inr:
  "and_then r f = Inr y \<longleftrightarrow> (\<exists>x. r = Inr x \<and> f x = Inr y)"
  by (cases r) simp_all

subsection \<open>Dict assignment and the formatting loop\<close>

lemma getitem_str_Inr:
  "getitem obj (JStr k) = Inr v \<longleftrightarrow> (\<exists>kvs. obj = JObj kvs \<and> map_of kvs k = Some v)"
  by (cases obj) (auto split: option.splits)

lemma dict_set_fresh: "k \<notin> fst ` set kvs \<Longrightarrow> dict_set kvs k v = kvs @ [(k, v)]"
  by (induction kvs k v rule: dict_set.induct) auto

lemma dict_set_keys: "fst ` set (dict_set kvs k v) = insert k (fst ` set kvs)"
  by (induction kvs k v rule: dict_set.induct) (auto simp: insert_commute)

lemma dict_set_distinct: "distinct (map fst kvs) \<Longrightarrow> distinct (map fst (dict_set kvs k v))"
  by (induction kvs k v rule: dict_set.induct) (auto simp: dict_set_keys)

lemma format_loop_distinct:
  "format_loop formatted props = Inr out \<Longrightarrow> distinct (map fst formatted) \<Longrightarrow> distinct (map fst out)"
  by (induction formatted props rule: format_loop.induct)
     (auto simp: and_then_eq_Inr dict_set_distinct)

lemma format_loop_zip:
  "map (\<lambda>p. format_property (snd p)) props = map Inr vs \<Longrightarrow>
   distinct (map fst formatted @ map fst props) \<Longrightarrow>
   format_loop formatted props = Inr (formatted @ zip (map fst props) vs)"
proof (induction formatted props arbitrary: vs rule: format_loop.induct)
  case (1 formatted)
  then show ?case by simp
next
  case (2 formatted prop_name prop_data rest)
  from "2.prems"(1) obtain v vs' where vs: "vs = v # vs'" and v: "format_property prop_data = Inr v"
    and rest: "map (\<lambda>p. format_property (snd p)) rest = map Inr vs'"
    by (cases vs) auto
  have fresh: "prop_name \<notin> fst ` set formatted" using "2.prems"(2) by auto
  have "distinct (map fst (dict_set formatted prop_name v) @ map fst rest)"
    using "2.prems"(2) by (auto simp: dict_set_fresh fresh)
  from "2.IH"[OF rest this] show ?case
    by (simp add: v vs dict_set_fresh fresh)
qed

lemma those_map_Some: "those (map f xs) = Some ys \<longleftrightarrow> map f xs = map Some ys"
  by (induction xs arbitrary: ys) (auto split: option.splits)

lemma map_result_Inr: "map f xs = map Inr ys \<Longrightarrow> map_result f xs = Inr ys"
  by (induction xs arbitrary: ys) auto

lemma plain_text_getitem:
  "plain_text_of f = Some s \<Longrightarrow> getitem f (JStr ''plain_text'') = Inr (JStr s)"
  by (cases f) (auto split: option.splits json.splits)

lemma joined_plain_text_concat:
  assumes "map_of kvs kind = Some (JList fragments)"
    and "those (map plain_text_of fragments) = Some texts"
  shows "joined_plain_text (JObj kvs) kind = Inr (JStr (concat texts))"
proof -
  have "map plain_text_of fragments = map Some texts"
    using assms(2) by (simp add: those_map_Some)
  then have "map (\<lambda>text. getitem text (JStr ''plain_text'')) fragments = map Inr (map JStr texts)"
    by (induction fragments arbitrary: texts) (auto simp: plain_text_getitem)
  then have "map_result (\<lambda>text. getitem text (JStr ''plain_text'')) fragments = Inr (map JStr texts)"
    by (rule map_result_Inr)
  moreover have "py_join (map JStr texts) = Inr (JStr (concat texts))"
    unfolding py_join_def by (simp add: map_result_Inr[where ys = texts] comp_def)
  ultimately show ?thesis
    by (simp add: joined_plain_text_def assms(1))
qed

lemma format_property_rule:
  "typed_property_of prop_data = Some tp \<Longrightarrow> format_property prop_data = Inr (extraction_rule tp)"
  by (cases prop_data)
     (auto simp: format_property_def joined_plain_text_concat
           split: option.splits json.splits if_splits)

lemma size_map_of: "map_of kvs k = Some v \<Longrightarrow> size v < size (JObj kvs)"
  by (induction kvs) (auto split: if_splits)

lemma py_join_str: "py_join xs = Inr y \<Longrightarrow> \<exists>s. y = JStr s"
  by (auto simp: py_join_def and_then_eq_Inr)

lemma joined_plain_text_str: "joined_plain_text prop_data kind = Inr y \<Longrightarrow> \<exists>s. y = JStr s"
  by (auto simp: joined_plain_text_def and_then_eq_Inr dest: py_join_str)

lemma getitem_smaller: "getitem (JObj kvs) key = Inr v \<Longrightarrow> size v < size (JObj kvs)"
  by (cases key) (auto split: option.splits dest: size_map_of)

lemma format_property_changes: "format_property v \<noteq> Inr v"
proof
  assume a: "format_property v = Inr v"
  then obtain kind where k: "getitem v (JStr ''type'') = Inr kind"
    by (auto simp: format_property_def and_then_eq_Inr)
  then obtain kvs where v: "v = JObj kvs" by (auto simp: getitem_str_Inr)
  show False
  proof (cases "kind = JStr ''title'' \<or> kind = JStr ''rich_text''")
    case True
    with a k have "joined_plain_text v ''title'' = Inr v \<or> joined_plain_text v ''rich_text'' = Inr v"
      by (auto simp: format_property_def)
    then obtain s where "v = JStr s" using joined_plain_text_str by blast
    with v show False by simp
  next
    case False
    with a k have "getitem v kind = Inr v" by (simp add: format_property_def)
    with v show False using getitem_smaller[of kvs kind v] by simp
  qed
qed

lemma format_property_primitive: "primitive v \<Longrightarrow> format_property v = Inl TypeError"
  by (cases v) (simp_all add: primitive_def format_property_def)

lemma format_loop_values:
  "format_loop formatted props = Inr out \<Longrightarrow>
   \<exists>vs. map (\<lambda>p. format_property (snd p)) props = map Inr vs"
proof (induction formatted props rule: format_loop.induct)
  case (1 formatted)
  then show ?case by simp
next
  case (2 formatted prop_name prop_data rest)
  from "2.prems" obtain v where v: "format_property prop_data = Inr v"
    and r: "format_loop (dict_set formatted prop_name v) rest = Inr out"
    by (auto simp: and_then_eq_Inr)
  from "2.IH"[OF r] obtain vs where "map (\<lambda>p. format_property (snd p)) rest = map Inr vs"
    by blast
  with v have "map (\<lambda>p. format_property (snd p)) ((prop_name, prop_data) # rest) = map Inr (v # vs)"
    by simp
  then show ?case by blast
qed

lemma format_loop_unchanged: "format_loop [] flattened = Inr flattened \<Longrightarrow> flattened = []"
proof (rule ccontr)
  assume a: "format_loop [] flattened = Inr flattened" and n: "flattened \<noteq> []"
  from a have d: "distinct (map fst flattened)" by (rule format_loop_distinct) simp
  from format_loop_values[OF a] obtain vs where
    vs: "map (\<lambda>p. format_property (snd p)) flattened = map Inr vs" by blast
  from vs d have "format_loop [] flattened = Inr ([] @ zip (map fst flattened) vs)"
    by (intro format_loop_zip) simp_all
  with a have z: "zip (map fst flattened) vs = flattened" by simp
  from vs have l: "length vs = length flattened" by (metis length_map)
  from n obtain p rest where f: "flattened = p # rest" by (cases flattened) auto
  with l obtain w ws where w: "vs = w # ws" by (cases vs) auto
  from z f w have "w = snd p" by (cases p) auto
  with vs f w have "format_property (snd p) = Inr (snd p)" by simp
  then show False by (simp add: format_property_changes)
qed

subsection \<open>The grouping loop\<close>

lemma update_group_keys [simp]: "map fst (update_group k f G) = map fst G"
  by (induction G) (auto simp: update_group_def)

lemma map_of_update_group:
  "map_of (update_group k f G) k' = (if k' = k then map_option f (map_of G k) else map_of G k')"
  by (induction G) (auto simp: update_group_def)

lemma map_of_dict_set: "map_of (dict_set G k v) k' = (if k' = k then Some v else map_of G k')"
  by (induction G k v rule: dict_set.induct) auto

lemma map_of_absent: "k \<notin> fst ` set G \<Longrightarrow> map_of G k = None"
  by (simp add: map_of_eq_None_iff)

lemma group_members_Nil [simp]: "group_members [] k = []"
  by (simp add: group_members_def)

lemma group_total_Nil [simp]: "group_total [] k = 0"
  by (simp add: group_total_def)

lemma group_item_skip: "item_key r = Inl e \<Longrightarrow> group_item G r = G"
  by (simp add: group_item_def)

lemma group_item_keys:
  "item_key r = Inr k \<Longrightarrow>
   map fst (group_item G r) = (if k \<in> fst ` set G then map fst G else map fst G @ [k])"
  by (auto simp: group_item_def Let_def dict_set_fresh split: sum.splits)

lemma group_item_members:
  assumes "item_key r = Inr k"
  shows "group_members (group_item G r) k' =
     (if k' = k then group_members G k @ [r] else group_members G k')"
proof (cases "k \<in> fst ` set G")
  case True
  then obtain g where "map_of G k = Some g"
    by (cases "map_of G k") (auto simp: map_of_eq_None_iff)
  with True assms show ?thesis
    by (simp add: group_item_def group_members_def Let_def map_of_update_group
          split: sum.splits)
next
  case False
  then have "map_of G k = None" by (simp add: map_of_eq_None_iff)
  with False assms show ?thesis
    by (simp add: group_item_def group_members_def Let_def map_of_update_group map_of_dict_set
          split: sum.splits)
qed

lemma group_item_total:
  assumes "item_key r = Inr k"
  shows "group_total (group_item G r) k' =
     (if k' = k then group_total G k + quantity_added r else group_total G k')"
proof (cases "k \<in> fst ` set G")
  case True
  then obtain g where "map_of G k = Some g"
    by (cases "map_of G k") (auto simp: map_of_eq_None_iff)
  with True assms show ?thesis
    by (simp add: group_item_def group_total_def quantity_added_def Let_def map_of_update_group
          split: sum.splits)
next
  case False
  then have "map_of G k = None" by (simp add: map_of_eq_None_iff)
  with False assms show ?thesis
    by (simp add: group_item_def group_total_def quantity_added_def Let_def map_of_update_group
          map_of_dict_set
          split: sum.splits)
qed

lemma foldl_group_members:
  "group_members (foldl group_item G rs) k =
     group_members G k @ filter (\<lambda>r. item_key r = Inr k) rs"
proof (induction rs arbitrary: G)
  case Nil
  then show ?case by simp
next
  case (Cons r rs)
  show ?case
  proof (cases "item_key r")
    case (Inl e)
    then show ?thesis by (simp add: Cons.IH group_item_skip)
  next
    case (Inr k')
    then show ?thesis by (simp add: Cons.IH group_item_members)
  qed
qed

lemma foldl_group_total:
  "group_total (foldl group_item G rs) k =
     group_total G k + sum_list (map quantity_added (filter (\<lambda>r. item_key r = Inr k) rs))"
proof (induction rs arbitrary: G)
  case Nil
  then show ?case by simp
next
  case (Cons r rs)
  show ?case
  proof (cases "item_key r")
    case (Inl e)
    then show ?thesis by (simp add: Cons.IH group_item_skip)
  next
    case (Inr k')
    then show ?thesis by (simp add: Cons.IH group_item_total)
  qed
qed

lemma foldl_group_distinct:
  "distinct (map fst G) \<Longrightarrow> distinct (map fst (foldl group_item G rs))"
proof (induction rs arbitrary: G)
  case Nil
  then show ?case by simp
next
  case (Cons r rs)
  have "distinct (map fst (group_item G r))"
    using Cons.prems by (cases "item_key r") (auto simp: group_item_skip group_item_keys)
  then show ?case by (simp add: Cons.IH)
qed

lemma foldl_group_keys:
  "fst ` set (foldl group_item G rs) = fst ` set G \<union> {k. \<exists>r\<in>set rs. item_key r = Inr k}"
proof (induction rs arbitrary: G)
  case Nil
  then show ?case by simp
next
  case (Cons r rs)
  have "fst ` set (group_item G r) = fst ` set G \<union> {k. item_key r = Inr k}"
  proof (cases "item_key r")
    case (Inl e)
    then show ?thesis by (simp add: group_item_skip)
  next
    case (Inr k)
    have "set (map fst (group_item G r)) = insert k (fst ` set G)"
      unfolding group_item_keys[OF Inr] by auto
    then show ?thesis using Inr by auto
  qed
  then show ?case by (auto simp: Cons.IH)
qed

lemma item_key_StrKey:
  "item_key r = Inr (StrKey s) \<longleftrightarrow> extract_item_name r = Inr (JStr s)"
proof (cases "extract_item_name r")
  case (Inl e)
  then show ?thesis by (simp add: item_key_def)
next
  case (Inr v)
  then show ?thesis by (cases v) (simp_all add: item_key_def)
qed

lemma group_by_name_members:
  "group_members (group_by_name rs) name = filter (\<lambda>r. item_key r = Inr name) rs"
  by (simp add: group_by_name_def foldl_group_members)

lemma group_by_name_total:
  "group_total (group_by_name rs) name =
     sum_list (map quantity_added (filter (\<lambda>r. item_key r = Inr name) rs))"
  by (simp add: group_by_name_def foldl_group_total)

lemma getitem_zero_then_text:
  "getitem title (JInt 0) = Inr fragment \<Longrightarrow> getitem fragment (JStr ''text'') = Inr text \<Longrightarrow>
   \<exists>fragments. title = JList (fragment # fragments)"
  by (cases title; cases fragment)
     (auto simp: seq_index_def and_then_eq_Inr neq_Nil_conv split: if_splits)

lemma no_title_no_name:
  assumes "\<not> has_item_title r"
  shows "\<exists>e. extract_item_name r = Inl e"
proof (cases "extract_item_name r")
  case (Inl e)
  then show ?thesis by blast
next
  case (Inr name)
  then obtain properties item_prop title fragment tx where
    "getitem r (JStr ''properties'') = Inr properties"
    "getitem properties (JStr ''Item'') = Inr item_prop"
    "getitem item_prop (JStr ''title'') = Inr title"
    "getitem title (JInt 0) = Inr fragment"
    "getitem fragment (JStr ''text'') = Inr tx"
    by (auto simp: extract_item_name_def title_content_def and_then_eq_Inr)
  moreover from this obtain fragments where "title = JList (fragment # fragments)"
    using getitem_zero_then_text by blast
  ultimately have "has_item_title r" by (simp add: has_item_title_def)
  with assms show ?thesis by contradiction
qed

subsection \<open>The pagination loops\<close>

lemma test_database_access_ok:
  assumes "notion_query \<lparr>q_filter = None, q_start_cursor = c, q_page_size = 10\<rparr> = Inr answer"
    and "map_result format_page (results answer) = Inr formatted"
  shows "test_database_access notion_query \<lparr>start_cursor = c, page_size = Some 10\<rparr> =
         Inr \<lparr>results = formatted, has_more = has_more answer, next_cursor = next_cursor answer\<rparr>"
  using assms by (simp add: test_database_access_def)

lemma pagination_loop_all_more:
  assumes rounds: "\<forall>n<10.
      remote n \<lparr>q_filter = None, q_start_cursor = cursor_sent answers n, q_page_size = 10\<rparr>
        = Inr (answers n) \<and>
      has_more (answers n) \<and>
      map_result format_page (results (answers n)) = Inr (flattened n)"
    and "k \<le> 9"
  shows "pagination_loop remote acc True (cursor_sent answers k) k =
         Inr (acc @ concat (map flattened [k..<10]), 10)"
  using assms(2)
proof (induction k arbitrary: acc rule: inc_induct)
  case base
  from rounds have
    "test_database_access (remote 9) \<lparr>start_cursor = cursor_sent answers 9, page_size = Some 10\<rparr> =
       Inr \<lparr>results = flattened 9, has_more = has_more (answers 9),
             next_cursor = next_cursor (answers 9)\<rparr>"
    by (intro test_database_access_ok) simp_all
  then show ?case by (simp add: upt_rec)
next
  case (step n)
  from rounds step.hyps have
    t: "test_database_access (remote n) \<lparr>start_cursor = cursor_sent answers n, page_size = Some 10\<rparr> =
       Inr \<lparr>results = flattened n, has_more = has_more (answers n),
             next_cursor = next_cursor (answers n)\<rparr>"
    by (intro test_database_access_ok) simp_all
  from rounds step.hyps have m: "has_more (answers n)" by simp
  have c: "next_cursor (answers n) = cursor_sent answers (Suc n)"
    by (simp add: cursor_sent_def)
  have u: "[n..<10] = n # [Suc n..<10]" using step.hyps by (simp add: upt_rec)
  show ?case
    using step.hyps step.IH[of "acc @ flattened n"]
    by (subst pagination_loop.simps) (simp add: t m c u)
qed

lemma pagination_loop_capped:
  "pagination_loop remote acc hm c k = Inr (all_pages, page_count) \<Longrightarrow> k \<le> 9 \<Longrightarrow>
   page_count \<le> 10"
proof (induction remote acc hm c k rule: pagination_loop.induct)
  case (1 remote all_pages' hm cursor k)
  show ?case
  proof (cases hm)
    case False
    with "1.prems" show ?thesis by (subst (asm) pagination_loop.simps) simp
  next
    case True
    show ?thesis
    proof (cases "test_database_access (remote k) \<lparr>start_cursor = cursor, page_size = Some 10\<rparr>")
      case (Inl e)
      with True "1.prems" show ?thesis by (subst (asm) pagination_loop.simps) simp
    next
      case (Inr formatted)
      show ?thesis
      proof (cases "k + 1 \<ge> 10")
        case ge: True
        with True Inr "1.prems" show ?thesis
          by (subst (asm) pagination_loop.simps) auto
      next
        case lt: False
        with True Inr "1.prems" have
          "pagination_loop remote (all_pages' @ results formatted) (has_more formatted)
             (next_cursor formatted) (k + 1) = Inr (all_pages, page_count)"
          by (subst (asm) pagination_loop.simps) simp
        from "1.IH"[OF True Inr lt this] lt show ?thesis by simp
      qed
    qed
  qed
qed

lemma query_loop_stops:
  "query_loop remote n acc c = Some y \<Longrightarrow>
   \<exists>m q. n \<le> m \<and> (case remote m q of Inl e \<Rightarrow> True | Inr answer \<Rightarrow> \<not> has_more answer)"
proof (induction rule: query_loop.raw_induct[rotated 1, consumes 1])
  case (1 loop remote n acc c y)
  show ?case
  proof (cases "remote n (query_params c)")
    case (Inl e)
    then have "case remote n (query_params c) of Inl e \<Rightarrow> True | Inr answer \<Rightarrow> \<not> has_more answer"
      by simp
    then show ?thesis by blast
  next
    case (Inr answer)
    show ?thesis
    proof (cases "has_more answer")
      case False
      with Inr have "case remote n (query_params c) of Inl e \<Rightarrow> True | Inr answer \<Rightarrow> \<not> has_more answer"
        by simp
      then show ?thesis by blast
    next
      case True
      with Inr "1.hyps" have "loop remote (Suc n) (acc @ results answer) (next_cursor answer) = Some y"
        by simp
      from "1.IH"[OF this] obtain m q where "Suc n \<le> m"
        "case remote m q of Inl e \<Rightarrow> True | Inr answer \<Rightarrow> \<not> has_more answer"
        by blast
      then have "n \<le> m \<and> (case remote m q of Inl e \<Rightarrow> True | Inr answer \<Rightarrow> \<not> has_more answer)"
        by simp
      then show ?thesis by blast
    qed
  qed
qed

lemma query_loop_never_returns:
  assumes "\<forall>n q. \<exists>answer. remote n q = Inr answer \<and> has_more answer"
  shows "query_loop remote n acc c = None"
proof (cases "query_loop remote n acc c")
  case None
  then show ?thesis .
next
  case (Some y)
  from query_loop_stops[OF this] obtain m q where
    "case remote m q of Inl e \<Rightarrow> True | Inr answer \<Rightarrow> \<not> has_more answer" by blast
  moreover from assms obtain answer where "remote m q = Inr answer" "has_more answer" by blast
  ultimately show ?thesis by simp
qed

lemma query_loop_until_last:
  assumes "\<forall>i\<le>n. remote i (query_params (cursor_sent answers i)) = Inr (answers i)"
    and "\<forall>i<n. has_more (answers i)"
    and "\<not> has_more (answers n)"
    and "k \<le> n"
  shows "query_loop remote k acc (cursor_sent answers k) =
         Some (Inr (acc @ concat (map (\<lambda>i. results (answers i)) [k..<Suc n])))"
  using assms(4)
proof (induction k arbitrary: acc rule: inc_induct)
  case base
  from assms(1) have "remote n (query_params (cursor_sent answers n)) = Inr (answers n)" by simp
  with assms(3) show ?case by (subst query_loop.simps) simp
next
  case (step k)
  from assms(1) step.hyps have r: "remote k (query_params (cursor_sent answers k)) = Inr (answers k)"
    by simp
  from assms(2) step.hyps have m: "has_more (answers k)" by simp
  have c: "next_cursor (answers k) = cursor_sent answers (Suc k)" by (simp add: cursor_sent_def)
  have u: "[k..<Suc n] = k # [Suc k..<Suc n]" using step.hyps by (simp add: upt_rec)
  show ?case
    using step.IH[of "acc @ results (answers k)"]
    by (subst query_loop.simps) (simp add: r m c u del: upt_Suc)
qed

subsection \<open>Names, file names and quantities\<close>

lemma space_code: "(c = CHR '' '') = (of_char c = (32::nat))"
proof -
  have e: "of_char (CHR '' '') = (32::nat)" by simp
  have "(of_char c = (of_char (CHR '' '') :: nat)) = (c = CHR '' '')" by (rule of_char_eq_iff)
  from this[unfolded e] show ?thesis by (rule sym)
qed

lemma hyphen_code: "(c = CHR ''-'') = (of_char c = (45::nat))"
proof -
  have e: "of_char (CHR ''-'') = (45::nat)" by simp
  have "(of_char c = (of_char (CHR ''-'') :: nat)) = (c = CHR ''-'')" by (rule of_char_eq_iff)
  from this[unfolded e] show ?thesis by (rule sym)
qed

lemma underscore_code: "(c = CHR ''_'') = (of_char c = (95::nat))"
proof -
  have e: "of_char (CHR ''_'') = (95::nat)" by simp
  have "(of_char c = (of_char (CHR ''_'') :: nat)) = (c = CHR ''_'')" by (rule of_char_eq_iff)
  from this[unfolded e] show ?thesis by (rule sym)
qed

lemma kept_char_ascii: "of_char c < (128::nat) \<Longrightarrow> kept_char c = plain_name_char c"
  unfolding kept_char_def plain_name_char_def isalnum_def Let_def space_code hyphen_code
    underscore_code
  by auto

lemma keeps_char: "keeps (JStr [c]) = Inr (kept_char c)"
  by (simp add: kept_char_def)

lemma filter_result_keeps:
  "filter_result keeps (map (\<lambda>c. JStr [c]) s) = Inr (map (\<lambda>c. JStr [c]) (filter kept_char s))"
  by (induction s) (simp_all add: keeps_char del: keeps.simps)

lemma map_result_str_of: "map_result str_of (map (\<lambda>c. JStr [c]) s) = Inr (map (\<lambda>c. [c]) s)"
  by (induction s) simp_all

lemma concat_singletons: "concat (map (\<lambda>c. [c]) s) = s"
  by (induction s) simp_all

lemma safe_filename_str: "safe_filename (JStr name) = Inr (rstrip (filter kept_char name))"
  by (simp add: safe_filename_def filter_result_keeps py_join_def map_result_str_of
        concat_singletons)

lemma getitem_zero_truthy: "getitem title (JInt 0) = Inr fragment \<Longrightarrow> truthy title"
  by (cases title) (auto simp: seq_index_def and_then_eq_Inr split: if_splits)

lemma title_content_passes_check:
  assumes "title_content properties = Inr item_name"
  shows "and_then (py_contains properties ''Item'') (\<lambda>present.
         and_then (if \<not> present then Inr True
               else and_then (getitem properties (JStr ''Item'')) (\<lambda>item_prop.
                    and_then (getitem item_prop (JStr ''title'')) (\<lambda>title.
                      Inr (\<not> truthy title)))) f) = f False"
proof -
  from assms obtain item_prop title fragment where
    i: "getitem properties (JStr ''Item'') = Inr item_prop"
    and t: "getitem item_prop (JStr ''title'') = Inr title"
    and f: "getitem title (JInt 0) = Inr fragment"
    by (auto simp: title_content_def and_then_eq_Inr)
  from i obtain kvs where p: "properties = JObj kvs" "map_of kvs ''Item'' = Some item_prop"
    by (auto simp: getitem_str_Inr)
  then have "''Item'' \<in> fst ` set kvs"
    by (metis map_of_eq_None_iff option.distinct(1))
  with p t getitem_zero_truthy[OF f] show ?thesis by simp
qed

lemma title_content_first:
  assumes "getitem properties (JStr ''Item'') = Inr item_prop"
    and "getitem item_prop (JStr ''title'') = Inr (JList (fragment # later))"
  shows "title_content properties =
         and_then (getitem fragment (JStr ''text'')) (\<lambda>tx. getitem tx (JStr ''content''))"
  using assms by (simp add: title_content_def seq_index_def)

lemma filter_Cons_find: "filter P xs = y # ys \<Longrightarrow> find P xs = Some y"
  by (induction xs) (auto split: if_splits)

subsection \<open>The example data\<close>

lemmas record_defs = page_record_def title_property_def rich_text_property_def
  number_property_def text_fragment_def

lemma bolt_keys:
  "item_key bolt_plain = Inr (StrKey ''Bolt'')" "item_key bolt_five = Inr (StrKey ''Bolt'')"
  "item_key bolt_dozen = Inr (StrKey ''Bolt'')" "item_key bolt_no_fragment = Inr (StrKey ''Bolt'')"
  by (simp_all add: bolt_plain_def bolt_five_def bolt_dozen_def bolt_no_fragment_def record_defs
        item_key_def extract_item_name_def title_content_def seq_index_def)

lemma int_of_str_5: "int_of_str ''5'' = Inr 5"
  by (simp add: int_of_str_def strip_where_def is_int_space_def is_digit_def Let_def)

lemma int_of_str_dozen: "int_of_str ''a dozen'' = Inl ValueError"
  by (simp add: int_of_str_def strip_where_def is_int_space_def is_digit_def Let_def)

lemma bolt_increments:
  "quantity_increment bolt_plain = Inr 0" "quantity_increment bolt_five = Inr 5"
  "quantity_increment bolt_dozen = Inr 1" "quantity_increment bolt_no_fragment = Inr 0"
  by (simp_all add: bolt_plain_def bolt_five_def bolt_dozen_def bolt_no_fragment_def record_defs
        quantity_increment_def quantity_try_def seq_index_def int_of_str_5 int_of_str_dozen)

lemma strftime_a_day: "strftime_Ymd a_day = ''20240309''"
  by (simp add: strftime_Ymd_def a_day_def digit_char_def)

lemma cafe_kept: "filter kept_char cafe_name = cafe_name"
  by (simp add: cafe_name_def kept_char_def isalnum_def)

lemma cafe_rstrip: "rstrip cafe_name = cafe_name"
  by (simp add: cafe_name_def rstrip_def isspace_def)

lemma bolt_m8_facts:
  "getitem bolt_plain (JStr ''properties'') = Inr (JObj [(''Item'', title_property [''Bolt''])])"
  "getitem bolt_m8 (JStr ''properties'') = Inr (JObj [(''Item'', title_property [''Bolt'', '' M8''])])"
  "getitem (title_property [''Bolt'', '' M8'']) (JStr ''title'') =
     Inr (JList (text_fragment ''Bolt'' # [text_fragment '' M8'']))"
  "getitem (title_property [''Bolt'']) (JStr ''title'') = Inr (JList (text_fragment ''Bolt'' # []))"
  "typed_property_of (title_property [''Bolt'', '' M8'']) = Some (Title [''Bolt'', '' M8''])"
  by (simp_all add: bolt_plain_def bolt_m8_def record_defs)

lemma format_widget:
  "map_result format_page (results widget_answer) = Inr [formatted_widget]"
  by (simp add: widget_answer_def widget_a_def formatted_widget_def record_defs format_page_def
        format_properties_def format_property_def joined_plain_text_def py_join_def)

lemma widget_keys:
  "item_key widget_a = Inr (StrKey ''Widget'')" "item_key widget_b = Inr (StrKey ''Widget'')"
  "item_key widget_lower = Inr (StrKey ''widget'')"
  by (simp_all add: widget_a_def widget_b_def widget_lower_def record_defs
        item_key_def extract_item_name_def title_content_def seq_index_def)

lemma widget_increments:
  "quantity_increment widget_a = Inr 0" "quantity_increment widget_b = Inr 0"
  "quantity_increment widget_lower = Inr 0"
  by (simp_all add: widget_a_def widget_b_def widget_lower_def record_defs
        quantity_increment_def quantity_try_def)

lemma widget_groups:
  "group_by_name [widget_a, widget_lower, widget_b] =
     [(StrKey ''Widget'', \<lparr>items = [widget_a, widget_b], total_quantity = 0\<rparr>),
      (StrKey ''widget'', \<lparr>items = [widget_lower], total_quantity = 0\<rparr>)]"
  by (simp add: group_by_name_def group_item_def widget_keys widget_increments Let_def
        update_group_def)

section \<open>The flattener\<close>

text \<open>
  Claim C4. For every property bag, the flattener maps each property by its declared
  kind: a title and a rich text to the concatenation of every fragment's
  \<open>plain_text\<close> in source order (the empty string for no fragment), any other kind to
  the payload stored under the kind's name, unchanged. The bag is a dict (each name
  once) whose values read as typed properties; the result keeps the names in order and
  holds for each the value the specification's table gives.
\<close>

theorem format_properties_by_kind:
  assumes "distinct (map fst props)"
    and "map (typed_property_of \<circ> snd) props = map Some typed"
  shows "format_properties (JObj props) = Inr (JObj (zip (map fst props) (map extraction_rule typed)))"
proof -
  have "map (\<lambda>p. format_property (snd p)) props = map Inr (map extraction_rule typed)"
    using assms(2)
    by (induction props arbitrary: typed) (auto simp: format_property_rule)
  moreover have "distinct (map fst [] @ map fst props)" using assms(1) by simp
  ultimately have "format_loop [] props = Inr ([] @ zip (map fst props) (map extraction_rule typed))"
    by (rule format_loop_zip)
  then show ?thesis by (simp add: format_properties_def)
qed

theorem format_properties_by_kind_witness:
  "distinct (map fst example_properties) \<and>
   map (typed_property_of \<circ> snd) example_properties =
     map Some [Title [''Bolt '', ''M8''], Rich_text [], Other ''number'' (JInt 3)] \<and>
   format_properties (JObj example_properties) =
     Inr (JObj [(''Item'', JStr ''Bolt M8''), (''Notes'', JStr []), (''Count'', JInt 3)])"
proof -
  have d: "distinct (map fst example_properties)"
    by (simp add: example_properties_def)
  have t: "map (typed_property_of \<circ> snd) example_properties =
     map Some [Title [''Bolt '', ''M8''], Rich_text [], Other ''number'' (JInt 3)]"
    by (simp add: example_properties_def title_property_def rich_text_property_def
          number_property_def text_fragment_def)
  from format_properties_by_kind[OF d t] d t show ?thesis
    by (simp add: example_properties_def)
qed

text \<open>
  Claim C5, as the code has it. Flattening is not idempotent on its output. The
  flattener reads the \<open>type\<close> entry of every value it is given, so applied to the
  properties of an already flattened record it raises as soon as one value is a
  string or another primitive (with \<open>TypeError\<close> when all are), and the only property
  bag it returns unchanged is the empty one.
\<close>

theorem format_properties_not_idempotent:
  "(format_properties (JObj flattened) = Inr (JObj flattened) \<longleftrightarrow> flattened = []) \<and>
   ((name, v) \<in> set flattened \<and> primitive v \<longrightarrow>
      (\<exists>e. format_properties (JObj flattened) = Inl e)) \<and>
   (flattened \<noteq> [] \<and> (\<forall>(name, v)\<in>set flattened. primitive v) \<longrightarrow>
      format_properties (JObj flattened) = Inl TypeError)"
proof (intro conjI impI)
  show "format_properties (JObj flattened) = Inr (JObj flattened) \<longleftrightarrow> flattened = []"
    by (auto simp: format_properties_def and_then_eq_Inr dest: format_loop_unchanged)
next
  assume a: "(name, v) \<in> set flattened \<and> primitive v"
  show "\<exists>e. format_properties (JObj flattened) = Inl e"
  proof (cases "format_properties (JObj flattened)")
    case (Inl e)
    then show ?thesis by blast
  next
    case (Inr out)
    then obtain formatted where "format_loop [] flattened = Inr formatted"
      by (auto simp: format_properties_def and_then_eq_Inr)
    from format_loop_values[OF this] obtain vs where
      "map (\<lambda>p. format_property (snd p)) flattened = map Inr vs" by blast
    then have "\<forall>p\<in>set flattened. \<exists>x. format_property (snd p) = Inr x"
      by (metis (mono_tags, lifting) imageE image_eqI list.set_map)
    with a have "\<exists>x. format_property v = Inr x" by force
    with a show ?thesis by (simp add: format_property_primitive)
  qed
next
  assume a: "flattened \<noteq> [] \<and> (\<forall>(name, v)\<in>set flattened. primitive v)"
  then obtain name v rest where f: "flattened = (name, v) # rest"
    by (cases flattened) auto
  with a have "primitive v" by simp
  then show "format_properties (JObj flattened) = Inl TypeError"
    by (simp add: f format_properties_def format_property_primitive)
qed

theorem format_properties_not_idempotent_witness:
  "(''Item'', JStr ''Bolt M8'') \<in> set example_flattened \<and> primitive (JStr ''Bolt M8'') \<and>
   example_flattened \<noteq> [] \<and> list_all (\<lambda>(name, v). primitive v) example_flattened \<and>
   format_properties (JObj example_flattened) = Inl TypeError \<and>
   format_properties (JObj example_flattened) \<noteq> Inr (JObj example_flattened) \<and>
   format_properties (JObj []) = Inr (JObj [])"
proof -
  have p: "\<forall>(name, v)\<in>set example_flattened. primitive v"
    by (simp add: example_flattened_def primitive_def)
  then have l: "list_all (\<lambda>(name, v). primitive v) example_flattened"
    by (simp add: list_all_iff)
  have n: "example_flattened \<noteq> []" "(''Item'', JStr ''Bolt M8'') \<in> set example_flattened"
    "primitive (JStr ''Bolt M8'')"
    by (simp_all add: example_flattened_def primitive_def)
  note w = format_properties_not_idempotent[where flattened = example_flattened
      and name = "''Item''" and v = "JStr ''Bolt M8''"]
  note e = format_properties_not_idempotent[where flattened = "[]"]
  from w n p have t: "format_properties (JObj example_flattened) = Inl TypeError" by blast
  from w n have u: "format_properties (JObj example_flattened) \<noteq> Inr (JObj example_flattened)"
    by blast
  from e have "format_properties (JObj []) = Inr (JObj [])" by blast
  with t u l n show ?thesis by blast
qed

text \<open>
  The claim as stated has a second flattening return the flattened properties
  unchanged. The flattened properties of the example record are strings and a
  number, and flattening them raises \<open>TypeError\<close>; the flattened value of a formula
  property is a dict with a \<open>type\<close> entry of its own, and a second flattening
  replaces it by the number inside.
\<close>

theorem format_flattened_counterexample:
  "format_properties (JObj example_properties) = Inr (JObj example_flattened) \<and>
   format_properties (JObj example_flattened) = Inl TypeError \<and>
   format_properties (JObj formula_properties) =
     Inr (JObj [(''Total'', JObj [(''type'', JStr ''number''), (''number'', JInt 5)])]) \<and>
   format_properties (JObj [(''Total'', JObj [(''type'', JStr ''number''), (''number'', JInt 5)])]) =
     Inr (JObj [(''Total'', JInt 5)])"
  by (simp add: example_properties_def example_flattened_def formula_properties_def
        title_property_def rich_text_property_def number_property_def text_fragment_def
        format_properties_def format_property_def joined_plain_text_def py_join_def)

section \<open>Grouping\<close>

text \<open>
  Claim C6. For every input list of records, the grouping loop groups by the raw
  extracted name, with no normalisation: there is one group per name; the members of
  the group of a name are exactly the records whose extracted name is that very
  string, in input order, so two records with the identical name are both members of
  one group and a record with a different name (different in case or whitespace only,
  too) is a member of another.
\<close>

theorem group_by_raw_name:
  "distinct (map fst (group_by_name rs)) \<and>
   fst ` set (group_by_name rs) = {k. \<exists>r\<in>set rs. item_key r = Inr k} \<and>
   (\<forall>s. group_members (group_by_name rs) (StrKey s) =
          filter (\<lambda>r. extract_item_name r = Inr (JStr s)) rs) \<and>
   (\<forall>r1 r2 s1 s2.
      r1 \<in> set rs \<and> r2 \<in> set rs \<and>
      extract_item_name r1 = Inr (JStr s1) \<and> extract_item_name r2 = Inr (JStr s2) \<longrightarrow>
        StrKey s1 \<in> fst ` set (group_by_name rs) \<and>
        StrKey s2 \<in> fst ` set (group_by_name rs) \<and>
        r1 \<in> set (group_members (group_by_name rs) (StrKey s1)) \<and>
        (r2 \<in> set (group_members (group_by_name rs) (StrKey s1)) \<longleftrightarrow> s1 = s2))"
proof -
  have m: "group_members (group_by_name rs) (StrKey s) =
          filter (\<lambda>r. extract_item_name r = Inr (JStr s)) rs" for s
    by (simp add: group_by_name_def foldl_group_members item_key_StrKey)
  have k: "fst ` set (group_by_name rs) = {k. \<exists>r\<in>set rs. item_key r = Inr k}"
    by (simp add: group_by_name_def foldl_group_keys)
  have d: "distinct (map fst (group_by_name rs))"
    by (simp add: group_by_name_def foldl_group_distinct)
  show ?thesis
    using d k by (auto simp: m item_key_StrKey)
qed

theorem group_by_raw_name_witness:
  "widget_a \<in> set [widget_a, widget_lower, widget_b, widget_spaced] \<and>
   widget_b \<in> set [widget_a, widget_lower, widget_b, widget_spaced] \<and>
   extract_item_name widget_a = Inr (JStr ''Widget'') \<and>
   extract_item_name widget_b = Inr (JStr ''Widget'') \<and>
   extract_item_name widget_lower = Inr (JStr ''widget'') \<and>
   extract_item_name widget_spaced = Inr (JStr ''Widget '') \<and>
   group_members (group_by_name [widget_a, widget_lower, widget_b, widget_spaced])
     (StrKey ''Widget'') = [widget_a, widget_b] \<and>
   group_members (group_by_name [widget_a, widget_lower, widget_b, widget_spaced])
     (StrKey ''widget'') = [widget_lower] \<and>
   group_members (group_by_name [widget_a, widget_lower, widget_b, widget_spaced])
     (StrKey ''Widget '') = [widget_spaced]"
proof -
  have n: "extract_item_name widget_a = Inr (JStr ''Widget'')"
    "extract_item_name widget_b = Inr (JStr ''Widget'')"
    "extract_item_name widget_lower = Inr (JStr ''widget'')"
    "extract_item_name widget_spaced = Inr (JStr ''Widget '')"
    by (simp_all add: widget_a_def widget_b_def widget_lower_def widget_spaced_def
          page_record_def title_property_def text_fragment_def extract_item_name_def
          title_content_def seq_index_def)
  from group_by_raw_name[of "[widget_a, widget_lower, widget_b, widget_spaced]"]
  have "\<forall>s. group_members (group_by_name [widget_a, widget_lower, widget_b, widget_spaced])
              (StrKey s) =
            filter (\<lambda>r. extract_item_name r = Inr (JStr s))
              [widget_a, widget_lower, widget_b, widget_spaced]"
    by blast
  then show ?thesis by (simp add: n)
qed

text \<open>
  Claim C7. For every input list of records, a record that lacks an \<open>Item\<close> property
  with a title of at least one fragment is excluded from every group, and its
  failure does not abort the loop: the records after it are processed as if it had
  not been in the list.
\<close>

theorem missing_title_skipped:
  assumes "\<not> has_item_title r"
  shows "group_by_name (before @ r # after) = group_by_name (before @ after) \<and>
         (\<forall>name. r \<notin> set (group_members (group_by_name (before @ r # after)) name))"
proof -
  from assms obtain e where e: "extract_item_name r = Inl e" using no_title_no_name by blast
  then have k: "item_key r = Inl e" by (simp add: item_key_def)
  have "group_by_name (before @ r # after) = group_by_name (before @ after)"
    by (simp add: group_by_name_def group_item_skip[OF k])
  moreover have "r \<notin> set (group_members (group_by_name (before @ r # after)) name)" for name
    by (simp add: group_by_name_def foldl_group_members k del: foldl_append)
  ultimately show ?thesis by blast
qed

theorem missing_title_skipped_witness:
  "\<not> has_item_title untitled \<and>
   group_by_name ([widget_a] @ untitled # [widget_b]) = group_by_name ([widget_a] @ [widget_b]) \<and>
   untitled \<notin> set (group_members (group_by_name ([widget_a] @ untitled # [widget_b]))
                    (StrKey ''Widget''))"
proof -
  have h: "\<not> has_item_title untitled"
    by (simp add: untitled_def page_record_def has_item_title_def number_property_def)
  from missing_title_skipped[OF h, of "[widget_a]" "[widget_b]"] h show ?thesis
    by blast
qed

text \<open>
  Claim C1. A record whose \<open>Quantity\<close> rich text parses as the integer \<open>n\<close> adds \<open>n\<close> to
  its group's \<open>total_quantity\<close>; a record with no \<open>Quantity\<close> property, with an empty
  fragment list or with non-numeric text adds 1. The handler of the quantity code
  adds 1 on \<open>ValueError\<close>, \<open>KeyError\<close> and \<open>IndexError\<close>, but the \<open>get\<close> defaults and the
  truth test before the parse keep a missing property and an empty fragment list
  from raising at all. So the code adds 5 for the text \<open>5\<close> and 1 for the text
  \<open>a dozen\<close>, as claimed, and nothing where the claim has 1: the record of the
  specification's end-to-end example (\<open>Bolt\<close>, no \<open>Quantity\<close>) forms a group of one
  member with total 0, and three records without a quantity a group of three
  members with total 0.
\<close>

theorem quantity_fallback_missed:
  "getitem bolt_plain (JStr ''properties'') = Inr (JObj [(''Item'', title_property [''Bolt''])]) \<and>
   quantity_try bolt_plain = Inr 0 \<and>
   quantity_try bolt_no_fragment = Inr 0 \<and>
   quantity_try bolt_dozen = Inl ValueError \<and>
   map (\<lambda>(name, g). (name, length (items g), total_quantity g)) (group_by_name [bolt_plain])
     = [(StrKey ''Bolt'', 1, 0)] \<and>
   map (\<lambda>(name, g). (name, length (items g), total_quantity g)) (group_by_name [bolt_no_fragment])
     = [(StrKey ''Bolt'', 1, 0)] \<and>
   map (\<lambda>(name, g). (name, length (items g), total_quantity g))
     (group_by_name [bolt_plain, bolt_no_fragment, bolt_m8]) = [(StrKey ''Bolt'', 3, 0)] \<and>
   map (\<lambda>(name, g). (name, length (items g), total_quantity g)) (group_by_name [bolt_dozen])
     = [(StrKey ''Bolt'', 1, 1)] \<and>
   map (\<lambda>(name, g). (name, length (items g), total_quantity g)) (group_by_name [bolt_five])
     = [(StrKey ''Bolt'', 1, 5)]"
proof -
  have p: "getitem bolt_plain (JStr ''properties'') = Inr (JObj [(''Item'', title_property [''Bolt''])])"
    by (simp add: bolt_plain_def page_record_def)
  have t: "quantity_try bolt_plain = Inr 0" "quantity_try bolt_no_fragment = Inr 0"
    "quantity_try bolt_dozen = Inl ValueError"
    by (simp_all add: bolt_plain_def bolt_no_fragment_def bolt_dozen_def record_defs
          quantity_try_def seq_index_def int_of_str_dozen)
  have k: "item_key bolt_m8 = Inr (StrKey ''Bolt'')"
    by (simp add: bolt_m8_def record_defs item_key_def extract_item_name_def title_content_def
          seq_index_def)
  have i: "quantity_increment bolt_m8 = Inr 0"
    by (simp add: bolt_m8_def record_defs quantity_increment_def quantity_try_def)
  from p t show ?thesis
    by (simp add: group_by_name_def group_item_def bolt_keys bolt_increments k i Let_def
          update_group_def)
qed

text \<open>
  Claim C9. The item name used for grouping and for the file name is the text content
  of the first fragment of the \<open>Item\<close> title alone: two records whose titles begin
  with the same fragment have the same name whatever follows, are members of the same
  group, and give the same artifact for the same id; the flattener, in contrast,
  concatenates the \<open>plain_text\<close> of all fragments of that same property.
\<close>

theorem item_name_is_first_fragment:
  assumes "getitem r1 (JStr ''properties'') = Inr p1"
    and "getitem p1 (JStr ''Item'') = Inr i1"
    and "getitem i1 (JStr ''title'') = Inr (JList (fragment # later1))"
    and "getitem r2 (JStr ''properties'') = Inr p2"
    and "getitem p2 (JStr ''Item'') = Inr i2"
    and "getitem i2 (JStr ''title'') = Inr (JList (fragment # later2))"
  shows "extract_item_name r1 =
           and_then (getitem fragment (JStr ''text'')) (\<lambda>tx. getitem tx (JStr ''content'')) \<and>
         extract_item_name r2 = extract_item_name r1 \<and>
         (r1 \<in> set rs \<and> r2 \<in> set rs \<and> item_key r1 = Inr name \<longrightarrow>
            r1 \<in> set (group_members (group_by_name rs) name) \<and>
            r2 \<in> set (group_members (group_by_name rs) name)) \<and>
         generate_item_qr today page_id p2 = generate_item_qr today page_id p1 \<and>
         (typed_property_of i1 = Some (Title texts) \<longrightarrow>
            format_property i1 = Inr (JStr (concat texts)))"
proof -
  have t1: "title_content p1 =
      and_then (getitem fragment (JStr ''text'')) (\<lambda>tx. getitem tx (JStr ''content''))"
    using assms(2,3) by (rule title_content_first)
  have t2: "title_content p2 =
      and_then (getitem fragment (JStr ''text'')) (\<lambda>tx. getitem tx (JStr ''content''))"
    using assms(5,6) by (rule title_content_first)
  have n1: "extract_item_name r1 =
      and_then (getitem fragment (JStr ''text'')) (\<lambda>tx. getitem tx (JStr ''content''))"
    by (simp add: extract_item_name_def assms(1) t1)
  have n2: "extract_item_name r2 = extract_item_name r1"
    by (simp add: extract_item_name_def assms(1,4) t1 t2)
  then have k: "item_key r2 = item_key r1" by (simp add: item_key_def)
  have g: "r1 \<in> set (group_members (group_by_name rs) name) \<and>
           r2 \<in> set (group_members (group_by_name rs) name)"
    if "r1 \<in> set rs \<and> r2 \<in> set rs \<and> item_key r1 = Inr name"
    using that k by (simp add: group_by_name_def foldl_group_members)
  from assms(2) obtain k1 where k1: "p1 = JObj k1" "map_of k1 ''Item'' = Some i1"
    by (auto simp: getitem_str_Inr)
  from assms(5) obtain k2 where k2: "p2 = JObj k2" "map_of k2 ''Item'' = Some i2"
    by (auto simp: getitem_str_Inr)
  have "''Item'' \<in> fst ` set k1" "''Item'' \<in> fst ` set k2"
    using k1 k2 by (metis map_of_eq_None_iff option.distinct(1))+
  then have q: "generate_item_qr today page_id p2 = generate_item_qr today page_id p1"
    using assms(3,6) k1 k2 t1 t2 by (simp add: generate_item_qr_def)
  have f: "format_property i1 = Inr (JStr (concat texts))"
    if "typed_property_of i1 = Some (Title texts)"
    using format_property_rule[OF that] by simp
  from n1 n2 g q f show ?thesis by blast
qed

theorem item_name_is_first_fragment_witness:
  "extract_item_name bolt_m8 = Inr (JStr ''Bolt'') \<and>
   extract_item_name bolt_plain = Inr (JStr ''Bolt'') \<and>
   group_members (group_by_name [bolt_m8, bolt_plain]) (StrKey ''Bolt'') = [bolt_m8, bolt_plain] \<and>
   format_property (title_property [''Bolt'', '' M8'']) = Inr (JStr ''Bolt M8'') \<and>
   generate_item_qr a_day (JStr ''abc-5'') (JObj [(''Item'', title_property [''Bolt'', '' M8''])]) =
     Inr \<lparr>notion_url = ''https://www.notion.so/abc5'', filename = ''Bolt_20240309.png''\<rparr>"
proof -
  have c: "and_then (getitem (text_fragment ''Bolt'') (JStr ''text''))
             (\<lambda>tx. getitem tx (JStr ''content'')) = Inr (JStr ''Bolt'')"
    by (simp add: text_fragment_def)
  have i: "getitem (JObj [(''Item'', title_property [''Bolt'', '' M8''])]) (JStr ''Item'') =
             Inr (title_property [''Bolt'', '' M8''])"
      "getitem (JObj [(''Item'', title_property [''Bolt''])]) (JStr ''Item'') =
             Inr (title_property [''Bolt''])"
    by simp_all
  note w = item_name_is_first_fragment[OF bolt_m8_facts(2) i(1) bolt_m8_facts(3)
      bolt_m8_facts(1) i(2) bolt_m8_facts(4),
      where rs = "[bolt_m8, bolt_plain]" and name = "StrKey ''Bolt''" and today = a_day
        and page_id = "JStr ''abc-5''" and texts = "[''Bolt'', '' M8'']"]
  from w have n: "extract_item_name bolt_m8 = Inr (JStr ''Bolt'')"
    "extract_item_name bolt_plain = Inr (JStr ''Bolt'')"
    by (simp_all add: c)
  then have k: "item_key bolt_m8 = Inr (StrKey ''Bolt'')" by (simp add: item_key_def)
  from w k have m: "bolt_m8 \<in> set (group_members (group_by_name [bolt_m8, bolt_plain]) (StrKey ''Bolt''))"
    "bolt_plain \<in> set (group_members (group_by_name [bolt_m8, bolt_plain]) (StrKey ''Bolt''))"
    by simp_all
  have g: "group_members (group_by_name [bolt_m8, bolt_plain]) (StrKey ''Bolt'') = [bolt_m8, bolt_plain]"
    using n by (simp add: group_by_name_members item_key_def)
  from w have f: "format_property (title_property [''Bolt'', '' M8'']) = Inr (JStr ''Bolt M8'')"
    by (simp add: bolt_m8_facts(5))
  from w have "generate_item_qr a_day (JStr ''abc-5'') (JObj [(''Item'', title_property [''Bolt'', '' M8''])]) =
     generate_item_qr a_day (JStr ''abc-5'') (JObj [(''Item'', title_property [''Bolt''])])"
    by simp
  also have "\<dots> = Inr \<lparr>notion_url = ''https://www.notion.so/abc5'', filename = ''Bolt_20240309.png''\<rparr>"
    by (simp add: generate_item_qr_def title_content_def title_property_def text_fragment_def
          seq_index_def safe_filename_str strftime_a_day kept_char_def isalnum_def rstrip_def
          isspace_def)
  finally show ?thesis using n g f by simp
qed

text \<open>
  Claim C10. Every group the grouping loop produces has a member, its first member
  is the earliest record of the input with the group's name, and the artifact
  rendered for the group is \<open>generate_item_qr\<close> applied to the \<open>id\<close> and the
  \<open>properties\<close> of that first member.
\<close>

theorem group_rendered_from_first_member:
  assumes "(name, data) \<in> set (group_by_name rs)"
  shows "\<exists>first_item later.
           items data = first_item # later \<and>
           find (\<lambda>r. item_key r = Inr name) rs = Some first_item \<and>
           (name, and_then (getitem first_item (JStr ''id'')) (\<lambda>page_id.
                  and_then (getitem first_item (JStr ''properties'')) (\<lambda>properties.
                    generate_item_qr today page_id properties)))
             \<in> set (generate_unique_qrs today (group_by_name rs))"
proof -
  have d: "distinct (map fst (group_by_name rs))"
    by (simp add: group_by_name_def foldl_group_distinct)
  with assms have "map_of (group_by_name rs) name = Some data" by simp
  then have m: "items data = filter (\<lambda>r. item_key r = Inr name) rs"
    using foldl_group_members[of "[]" rs name]
    by (simp add: group_by_name_def group_members_def)
  from assms have "name \<in> fst ` set (group_by_name rs)" by force
  then obtain r where "r \<in> set rs" "item_key r = Inr name"
    by (auto simp: group_by_name_def foldl_group_keys)
  then have "filter (\<lambda>r. item_key r = Inr name) rs \<noteq> []"
    by (auto simp: filter_empty_conv)
  with m have "items data \<noteq> []" by simp
  then obtain first_item later where i: "items data = first_item # later"
    by (cases "items data") simp_all
  with m have f: "find (\<lambda>r. item_key r = Inr name) rs = Some first_item"
    by (intro filter_Cons_find[where ys = later]) simp
  have "generate_group_qr today data =
        and_then (getitem first_item (JStr ''id'')) (\<lambda>page_id.
        and_then (getitem first_item (JStr ''properties'')) (\<lambda>properties.
          generate_item_qr today page_id properties))"
    by (simp add: generate_group_qr_def i seq_index_def)
  moreover have "(name, generate_group_qr today data) \<in> set (generate_unique_qrs today (group_by_name rs))"
    using assms by (force simp: generate_unique_qrs_def)
  ultimately show ?thesis using i f by auto
qed

theorem group_rendered_from_first_member_witness:
  "(StrKey ''Widget'', \<lparr>items = [widget_a, widget_b], total_quantity = 0\<rparr>)
     \<in> set (group_by_name [widget_a, widget_lower, widget_b]) \<and>
   find (\<lambda>r. item_key r = Inr (StrKey ''Widget'')) [widget_a, widget_lower, widget_b] = Some widget_a \<and>
   (StrKey ''Widget'',
    generate_item_qr a_day (JStr ''11111111-aaaa'') (JObj [(''Item'', title_property [''Widget''])]))
     \<in> set (generate_unique_qrs a_day (group_by_name [widget_a, widget_lower, widget_b]))"
proof -
  have m: "(StrKey ''Widget'', \<lparr>items = [widget_a, widget_b], total_quantity = 0\<rparr>)
     \<in> set (group_by_name [widget_a, widget_lower, widget_b])"
    by (simp add: widget_groups)
  have i: "getitem widget_a (JStr ''id'') = Inr (JStr ''11111111-aaaa'')"
    "getitem widget_a (JStr ''properties'') = Inr (JObj [(''Item'', title_property [''Widget''])])"
    by (simp_all add: widget_a_def page_record_def)
  from group_rendered_from_first_member[OF m, where today = a_day]
  obtain first_item later where
    f: "[widget_a, widget_b] = first_item # later"
    "find (\<lambda>r. item_key r = Inr (StrKey ''Widget'')) [widget_a, widget_lower, widget_b] = Some first_item"
    "(StrKey ''Widget'', and_then (getitem first_item (JStr ''id'')) (\<lambda>page_id.
                  and_then (getitem first_item (JStr ''properties'')) (\<lambda>properties.
                    generate_item_qr a_day page_id properties)))
             \<in> set (generate_unique_qrs a_day (group_by_name [widget_a, widget_lower, widget_b]))"
    by auto
  from f(1) have "first_item = widget_a" by simp
  with f(2,3) m show ?thesis by (simp add: i)
qed

section \<open>Pagination\<close>

text \<open>
  Claim C2, as the code has it. The batch path's loop has no round cap: it stops at
  the first answer whose \<open>has_more\<close> is false, after however many rounds that takes,
  and returns the results of all answers up to that one; when every answer reports
  more, it never stops. (A remote exception ends the run.)
\<close>

theorem fetch_all_results_uncapped:
  "((\<forall>i\<le>n. remote i (query_params (cursor_sent answers i)) = Inr (answers i)) \<and>
    (\<forall>i<n. has_more (answers i)) \<and> \<not> has_more (answers n) \<longrightarrow>
      fetch_all_results remote =
        Some (Inr (concat (map (\<lambda>i. results (answers i)) [0..<Suc n])))) \<and>
   ((\<forall>i q. \<exists>answer. remote i q = Inr answer \<and> has_more answer) \<longrightarrow>
      fetch_all_results remote = None)"
proof (intro conjI impI)
  assume a: "(\<forall>i\<le>n. remote i (query_params (cursor_sent answers i)) = Inr (answers i)) \<and>
    (\<forall>i<n. has_more (answers i)) \<and> \<not> has_more (answers n)"
  have "query_loop remote 0 [] (cursor_sent answers 0) =
        Some (Inr ([] @ concat (map (\<lambda>i. results (answers i)) [0..<Suc n])))"
    using a by (intro query_loop_until_last) simp_all
  then show "fetch_all_results remote =
        Some (Inr (concat (map (\<lambda>i. results (answers i)) [0..<Suc n])))"
    by (simp add: fetch_all_results_def cursor_sent_def)
next
  assume "\<forall>i q. \<exists>answer. remote i q = Inr answer \<and> has_more answer"
  then show "fetch_all_results remote = None"
    unfolding fetch_all_results_def by (rule query_loop_never_returns)
qed

theorem fetch_all_results_uncapped_witness:
  "twelve_rounds 11 (query_params (cursor_sent numbered_answer 11)) = Inr (numbered_answer 11) \<and>
   has_more (numbered_answer 10) \<and> \<not> has_more (numbered_answer 11) \<and>
   fetch_all_results twelve_rounds =
     Some (Inr (concat (map (\<lambda>i. results (numbered_answer i)) [0..<Suc 11]))) \<and>
   always_more 0 (query_params None) = Inr widget_answer \<and> has_more widget_answer \<and>
   fetch_all_results always_more = None"
proof -
  have a: "(\<forall>i\<le>11. twelve_rounds i (query_params (cursor_sent numbered_answer i)) =
              Inr (numbered_answer i)) \<and>
           (\<forall>i<11. has_more (numbered_answer i)) \<and> \<not> has_more (numbered_answer 11)"
    by (simp add: twelve_rounds_def numbered_answer_def)
  have b: "\<forall>i q. \<exists>answer. always_more i q = Inr answer \<and> has_more answer"
    by (simp add: always_more_def widget_answer_def)
  from fetch_all_results_uncapped[where remote = twelve_rounds and answers = numbered_answer
      and n = 11] a
  have 1: "fetch_all_results twelve_rounds =
     Some (Inr (concat (map (\<lambda>i. results (numbered_answer i)) [0..<Suc 11])))"
    by blast
  from fetch_all_results_uncapped[where remote = always_more] b
  have 2: "fetch_all_results always_more = None" by blast
  from 1 2 show ?thesis
    by (simp add: twelve_rounds_def numbered_answer_def always_more_def widget_answer_def)
qed

text \<open>
  The claim as stated has the loop stop after at most 10 rounds. Against a remote that
  always reports more the loop never returns, and against one that reports more
  eleven times it runs twelve rounds and returns the results of all twelve.
\<close>

theorem fetch_all_results_counterexample:
  "fetch_all_results always_more = None \<and>
   fetch_all_results twelve_rounds = Some (Inr (map (\<lambda>n. JInt (int n)) [0..<12]))"
proof -
  have "fetch_all_results always_more = None"
    unfolding fetch_all_results_def
    by (rule query_loop_never_returns) (simp add: always_more_def widget_answer_def)
  moreover have "fetch_all_results twelve_rounds = Some (Inr (map (\<lambda>n. JInt (int n)) [0..<12]))"
    by (simp add: fetch_all_results_def twelve_rounds_def numbered_answer_def query_loop.simps
          upt_rec)
  ultimately show ?thesis by blast
qed

text \<open>
  Claim C3. The pagination test is capped at 10 rounds: when the remote reports
  \<open>has_more\<close> true on every round (and each round's records can be formatted), the
  loop sends exactly the ten queries of rounds 0 to 9, each with page size 10 and the
  cursor of the answer before, and returns the concatenation of the ten rounds'
  flattened records with \<open>pagination_rounds\<close> equal to 10. Whatever the remote
  answers, a run that returns has made at most 10 rounds, and the loop is a total
  function: its measure \<open>10 - page_count\<close> falls with every round.
\<close>

theorem test_pagination_ten_rounds:
  "((\<forall>n<10.
       remote n \<lparr>q_filter = None, q_start_cursor = cursor_sent answers n, q_page_size = 10\<rparr>
         = Inr (answers n) \<and>
       has_more (answers n) \<and>
       map_result format_page (results (answers n)) = Inr (flattened n)) \<longrightarrow>
    test_pagination remote =
      Inr \<lparr>total_pages_fetched = length (concat (map flattened [0..<10])),
            pagination_rounds = 10,
            pages = concat (map flattened [0..<10])\<rparr>) \<and>
   (test_pagination remote = Inr report \<longrightarrow> pagination_rounds report \<le> 10)"
proof (intro conjI impI)
  assume "\<forall>n<10.
       remote n \<lparr>q_filter = None, q_start_cursor = cursor_sent answers n, q_page_size = 10\<rparr>
         = Inr (answers n) \<and>
       has_more (answers n) \<and>
       map_result format_page (results (answers n)) = Inr (flattened n)"
  then have "pagination_loop remote [] True (cursor_sent answers 0) 0 =
        Inr ([] @ concat (map flattened [0..<10]), 10)"
    by (rule pagination_loop_all_more) simp
  then show "test_pagination remote =
      Inr \<lparr>total_pages_fetched = length (concat (map flattened [0..<10])),
            pagination_rounds = 10,
            pages = concat (map flattened [0..<10])\<rparr>"
    by (simp add: test_pagination_def cursor_sent_def)
next
  assume r: "test_pagination remote = Inr report"
  then obtain all_pages page_count where
    l: "pagination_loop remote [] True None 0 = Inr (all_pages, page_count)"
    and "pagination_rounds report = page_count"
    by (auto simp: test_pagination_def split: sum.splits)
  moreover from l have "page_count \<le> 10" by (rule pagination_loop_capped) simp
  ultimately show "pagination_rounds report \<le> 10" by simp
qed

theorem test_pagination_ten_rounds_witness:
  "always_more 0 \<lparr>q_filter = None, q_start_cursor = None, q_page_size = 10\<rparr> = Inr widget_answer \<and>
   has_more widget_answer \<and>
   map_result format_page (results widget_answer) = Inr [formatted_widget] \<and>
   test_pagination always_more =
     Inr \<lparr>total_pages_fetched = 10, pagination_rounds = 10,
           pages = replicate 10 formatted_widget\<rparr> \<and>
   pagination_rounds \<lparr>total_pages_fetched = 10, pagination_rounds = 10,
                      pages = replicate 10 formatted_widget\<rparr> \<le> 10"
proof -
  have h: "\<forall>n<10.
      always_more n \<lparr>q_filter = None, q_start_cursor = cursor_sent (\<lambda>n. widget_answer) n,
                      q_page_size = 10\<rparr> = Inr widget_answer \<and>
      has_more widget_answer \<and>
      map_result format_page (results widget_answer) = Inr [formatted_widget]"
    by (simp add: always_more_def format_widget) (simp add: widget_answer_def)
  note w = test_pagination_ten_rounds[where remote = always_more
      and answers = "\<lambda>n. widget_answer" and flattened = "\<lambda>n. [formatted_widget]"
      and report = "\<lparr>total_pages_fetched = 10, pagination_rounds = 10,
                      pages = replicate 10 formatted_widget\<rparr>"]
  from w h have t: "test_pagination always_more =
     Inr \<lparr>total_pages_fetched = 10, pagination_rounds = 10,
           pages = replicate 10 formatted_widget\<rparr>"
    by (simp add: map_replicate_const)
  with w have "pagination_rounds \<lparr>total_pages_fetched = 10, pagination_rounds = 10,
                      pages = replicate 10 formatted_widget\<rparr> \<le> 10"
    by blast
  with t show ?thesis
    by (simp add: always_more_def format_widget) (simp add: widget_answer_def)
qed

section \<open>Rendering\<close>

text \<open>
  Claim C8, as the code has it. For every item name (a string) the file name is the
  name with every character removed that is neither alphanumeric in the sense of
  \<open>str.isalnum\<close> nor a space, a hyphen or an underscore, then trailing whitespace
  trimmed, then \<open>_\<close>, the current date as eight digits \<open>YYYYMMDD\<close> and \<open>.png\<close>. On a
  name of ASCII characters the characters kept are exactly those of
  \<open>[A-Za-z0-9 _-]\<close>. The encoded URL is the fixed base followed by the record id
  with its hyphens removed.
\<close>

theorem generate_item_qr_artifact:
  assumes "title_content properties = Inr (JStr name)"
  shows "generate_item_qr today (JStr page_id) properties =
           Inr \<lparr>notion_url = ''https://www.notion.so/'' @ filter (\<lambda>c. c \<noteq> CHR ''-'') page_id,
                 filename = rstrip (filter kept_char name) @ ''_'' @ strftime_Ymd today @ ''.png''\<rparr> \<and>
         ((\<forall>c\<in>set name. of_char c < (128::nat)) \<longrightarrow>
            filter kept_char name = filter plain_name_char name) \<and>
         length (strftime_Ymd today) = 8"
proof -
  have "generate_item_qr today (JStr page_id) properties =
           Inr \<lparr>notion_url = ''https://www.notion.so/'' @ filter (\<lambda>c. c \<noteq> CHR ''-'') page_id,
                 filename = rstrip (filter kept_char name) @ ''_'' @ strftime_Ymd today @ ''.png''\<rparr>"
    unfolding generate_item_qr_def title_content_passes_check[OF assms]
    by (simp add: assms safe_filename_str)
  moreover have "filter kept_char name = filter plain_name_char name"
    if "\<forall>c\<in>set name. of_char c < (128::nat)"
    using that by (intro filter_cong refl) (simp add: kept_char_ascii)
  ultimately show ?thesis by (simp add: strftime_Ymd_def)
qed

theorem generate_item_qr_artifact_witness:
  "title_content (JObj [(''Item'', title_property [messy_name])]) = Inr (JStr messy_name) \<and>
   messy_name = ''Bolt: M8! '' \<and>
   generate_item_qr a_day (JStr ''abc-1'') (JObj [(''Item'', title_property [messy_name])]) =
     Inr \<lparr>notion_url = ''https://www.notion.so/abc1'', filename = ''Bolt M8_20240309.png''\<rparr> \<and>
   list_all (\<lambda>c. of_char c < (128::nat)) messy_name \<and>
   filter kept_char messy_name = filter plain_name_char messy_name \<and>
   length (strftime_Ymd a_day) = 8"
proof -
  have t: "title_content (JObj [(''Item'', title_property [messy_name])]) = Inr (JStr messy_name)"
    by (simp add: title_content_def title_property_def text_fragment_def seq_index_def)
  have k: "filter kept_char messy_name = ''Bolt M8 ''"
    by (simp add: messy_name_def kept_char_def isalnum_def)
  have r: "rstrip ''Bolt M8 '' = ''Bolt M8''"
    by (simp add: rstrip_def isspace_def)
  have a: "\<forall>c\<in>set messy_name. of_char c < (128::nat)" by (simp add: messy_name_def)
  then have l: "list_all (\<lambda>c. of_char c < (128::nat)) messy_name" by (simp add: list_all_iff)
  note w = generate_item_qr_artifact[OF t, where today = a_day and page_id = "''abc-1''"]
  from w a have p: "filter kept_char messy_name = filter plain_name_char messy_name" by blast
  from w have "generate_item_qr a_day (JStr ''abc-1'') (JObj [(''Item'', title_property [messy_name])]) =
     Inr \<lparr>notion_url = ''https://www.notion.so/'' @ filter (\<lambda>c. c \<noteq> CHR ''-'') ''abc-1'',
           filename = rstrip (filter kept_char messy_name) @ ''_'' @ strftime_Ymd a_day @ ''.png''\<rparr>"
    by blast
  then have g: "generate_item_qr a_day (JStr ''abc-1'') (JObj [(''Item'', title_property [messy_name])]) =
     Inr \<lparr>notion_url = ''https://www.notion.so/abc1'', filename = ''Bolt M8_20240309.png''\<rparr>"
    unfolding k r strftime_a_day by simp
  from w have "length (strftime_Ymd a_day) = 8" by blast
  with t g l p show ?thesis by (simp add: messy_name_def[symmetric])
qed

text \<open>
  The claim as stated removes every character outside \<open>[A-Za-z0-9 _-]\<close>. The letter
  U+00E9 is outside that class, and \<open>isalnum\<close> keeps it in the file name.
\<close>

theorem generate_item_qr_counterexample:
  "\<not> plain_name_char (CHR 0xE9) \<and>
   generate_item_qr a_day (JStr ''abc-1'') (JObj [(''Item'', title_property [cafe_name])]) =
     Inr \<lparr>notion_url = ''https://www.notion.so/abc1'',
           filename = ''Caf'' @ [CHR 0xE9] @ ''_20240309.png''\<rparr>"
  by (simp add: plain_name_char_def generate_item_qr_def title_content_def title_property_def
        text_fragment_def seq_index_def safe_filename_str cafe_kept cafe_rstrip strftime_a_day)
     (simp add: cafe_name_def)

end
